theory Spec2Isabelle
  imports Main
begin

section \<open>JavaScript values used by the model\<close>

text \<open>
  A thrown value is either an \<open>Error\<close> object, of which only the message is observed, or
  some other value; \<open>error instanceof Error\<close> holds exactly for the former.
\<close>

datatype js_error = Error (message: string) | Thrown string

text \<open>Decimal rendering of integers, as in a template literal or \<open>BigInt.toString()\<close>.\<close>

definition digit_char :: "nat \<Rightarrow> char" where
  "digit_char n = ''0123456789'' ! n"

fun string_of_nat :: "nat \<Rightarrow> string" where
  "string_of_nat n =
     (if n < 10 then [digit_char n]
      else string_of_nat (n div 10) @ [digit_char (n mod 10)])"

definition string_of_int :: "int \<Rightarrow> string" where
  "string_of_int i =
     (if i < 0 then CHR ''-'' # string_of_nat (nat (- i)) else string_of_nat (nat i))"

section \<open>Configuration and balance types (src/types.ts)\<close>

record token =
  tok_address :: string
  tok_symbol :: string
  tok_decimals :: int

record native_token =
  nt_symbol :: string
  nt_decimals :: int

record network =
  net_id :: int
  net_name :: string
  net_rpc_url :: string
  net_native_token :: native_token
  net_tokens :: "token list"

record wallet =
  w_address :: string
  w_label :: "string option"

record token_balance =
  tb_address :: string
  tb_symbol :: string
  tb_balance :: string
  tb_decimals :: int

record wallet_balance =
  wb_address :: string
  wb_label :: "string option"
  wb_network :: string
  wb_network_id :: int
  wb_native_balance :: string
  wb_tokens :: "token_balance list"
  wb_date :: string

section \<open>Addresses (src/utils.ts, constants)\<close>

definition NATIVE_TOKEN_ADDRESS :: string where
  "NATIVE_TOKEN_ADDRESS = ''0xeeeeeeeeeeeeeeeeeeeeeeeeeeeeeeeeeeeeeeee''"

definition MULTICALL3_ADDRESS :: string where
  "MULTICALL3_ADDRESS = ''0xcA11bde05977b3631167028862bE2a173976CA11''"

text \<open>
  \<open>toLowerCase\<close> on the ASCII letters, which is also what SQLite's \<open>LOWER\<close> does; other
  characters are left as they are. A character is its eight bits, lowest first: the
  upper-case letters are the codes 65 to 90, that is \<open>010xxxxx\<close> with \<open>xxxxx\<close> from 1 to
  26, and the lower-case letter has the bit of 32 set.
\<close>

fun lower_char :: "char \<Rightarrow> char" where
  "lower_char (Char b0 b1 b2 b3 b4 b5 b6 b7) =
     (if \<not> b7 \<and> b6 \<and> \<not> b5 \<and> (b0 \<or> b1 \<or> b2 \<or> b3 \<or> b4)
         \<and> \<not> (b4 \<and> b3 \<and> (b2 \<or> (b1 \<and> b0)))
      then Char b0 b1 b2 b3 b4 True b6 b7
      else Char b0 b1 b2 b3 b4 b5 b6 b7)"

definition toLowerCase :: "string \<Rightarrow> string" where
  "toLowerCase s = map lower_char s"

text \<open>
  \<open>standardizeAddress\<close>. The predicate \<open>isAddress\<close> is viem's and is a parameter of the
  model.
\<close>

definition standardizeAddress :: "(string \<Rightarrow> bool) \<Rightarrow> string \<Rightarrow> js_error + string" where
  "standardizeAddress isAddress addr =
     (if \<not> isAddress addr then Inl (Error (''Invalid Ethereum address: '' @ addr))
      else Inr (toLowerCase addr))"

text \<open>The first error of a list of results, or all the values.\<close>

fun collect :: "(js_error + 'a) list \<Rightarrow> js_error + 'a list" where
  "collect [] = Inr []"
| "collect (Inl e # rs) = Inl e"
| "collect (Inr x # rs) = (case collect rs of Inl e \<Rightarrow> Inl e | Inr xs \<Rightarrow> Inr (x # xs))"

section \<open>Wallet balance tracker: time utilities (src/utils.ts)\<close>

text \<open>
  A JavaScript \<open>Date\<close> is modelled by its time value: the number of milliseconds since
  1970-01-01T00:00:00.000Z, an \<open>int\<close>. (An invalid \<open>Date\<close>, whose time value is NaN, is
  not modelled.) A value of type \<open>Date | null | undefined\<close> is an \<open>int option\<close>.
  The current instant \<open>new Date()\<close> is an explicit argument \<open>now\<close>.
\<close>

type_synonym date = int

definition ONE_HOUR_MS :: int where
  "ONE_HOUR_MS = 60 * 60 * 1000"

definition MS_PER_DAY :: int where
  "MS_PER_DAY = 24 * 60 * 60 * 1000"

text \<open>\<open>isWithinDuration\<close>: \<open>Math.abs(targetTime.getTime() - timestamp.getTime()) <= durationMs\<close>.\<close>

definition isWithinDuration :: "date \<Rightarrow> date \<Rightarrow> int \<Rightarrow> bool" where
  "isWithinDuration timestamp targetTime durationMs =
     (let diff = \<bar>targetTime - timestamp\<bar> in diff \<le> durationMs)"

text \<open>
  \<open>setUTCHours(h, m, s, ms)\<close> keeps the UTC day of the date (the floor of the time value
  divided by the milliseconds of a day) and replaces the time within the day.
\<close>

definition setUTCHours :: "date \<Rightarrow> int \<Rightarrow> int \<Rightarrow> int \<Rightarrow> int \<Rightarrow> date" where
  "setUTCHours d h m s ms =
     (d div MS_PER_DAY) * MS_PER_DAY + (h * 3600000 + m * 60000 + s * 1000 + ms)"

definition getEndOfDay :: "date \<Rightarrow> date" where
  "getEndOfDay d = setUTCHours d 23 59 59 999"

text \<open>
  \<open>isBalanceTimestampValid(timestamp, date, isCurrentDay)\<close>; a \<open>Date\<close> object is truthy, so
  \<open>!timestamp\<close> holds exactly for \<open>null\<close> and \<open>undefined\<close>.
\<close>

definition isBalanceTimestampValid :: "date option \<Rightarrow> date \<Rightarrow> bool \<Rightarrow> date \<Rightarrow> bool" where
  "isBalanceTimestampValid timestamp d isCurrentDay now =
     (case timestamp of
        None \<Rightarrow> False
      | Some ts \<Rightarrow>
          (if isCurrentDay then isWithinDuration ts now ONE_HOUR_MS
           else isWithinDuration ts (getEndOfDay d) (3 * ONE_HOUR_MS)))"

section \<open>Rate limiter (src/rate-limiter.ts, constants)\<close>

definition NETWORK_RATE_LIMITS :: "int \<rightharpoonup> int" where
  "NETWORK_RATE_LIMITS = [1 \<mapsto> 10, 137 \<mapsto> 20, 42161 \<mapsto> 30, 8453 \<mapsto> 20, 10 \<mapsto> 20]"

definition DEFAULT_RATE_LIMIT :: int where
  "DEFAULT_RATE_LIMIT = 10"

definition DEFAULT_RETRY_DELAY :: int where
  "DEFAULT_RETRY_DELAY = 1000"

definition DEFAULT_RETRY_TIMEOUT :: int where
  "DEFAULT_RETRY_TIMEOUT = 30000"

definition getRateLimit :: "int \<Rightarrow> int" where
  "getRateLimit networkId =
     (case NETWORK_RATE_LIMITS networkId of Some l \<Rightarrow> l | None \<Rightarrow> DEFAULT_RATE_LIMIT)"

text \<open>
  The token bucket itself belongs to the \<open>limiter\<close> package; a limiter is represented by
  the options it is constructed with. The constructor fills \<open>this.limiters\<close>, an object
  keyed by network id, with one limiter per id of the list.
\<close>

record rate_limiter =
  tokensPerInterval :: int
  fireImmediately :: bool

definition RateLimiterManager :: "int list \<Rightarrow> (int \<rightharpoonup> rate_limiter)" where
  "RateLimiterManager networkIds =
     fold (\<lambda>networkId limiters.
             limiters(networkId \<mapsto>
               \<lparr>tokensPerInterval = getRateLimit networkId, fireImmediately = True\<rparr>))
          networkIds Map.empty"

text \<open>
  How \<open>Promise.race([limiter.removeTokens(1), timeout])\<close> settles is decided outside the
  program: \<open>removeTokens\<close> resolves first (only the truthiness of its value is observed),
  the \<open>DEFAULT_RETRY_TIMEOUT\<close> timer fires first, or \<open>removeTokens\<close> rejects. The model
  takes the settlement of the \<open>a\<close>-th acquisition of the manager as \<open>acquire a\<close>. The
  request is an operation on a state \<open>'s\<close> (whatever it reads and changes): invoked in
  state \<open>s\<close> it gives \<open>request s\<close>, its result or error and the state it leaves.
\<close>

datatype acquisition = Removed bool | TimedOut | RemoveFailed js_error

datatype rl_event = Acquire int | Invoke | Backoff int

record ('a, 's) execution =
  outcome :: "js_error + 'a"
  final :: 's
  acquisitions :: nat
  events :: "rl_event list"

text \<open>
  The body of the \<open>try\<close> block: the value it returns or the error it throws, the state
  it leaves, and whether the request was invoked.
\<close>

definition try_body ::
  "acquisition \<Rightarrow> ('s \<Rightarrow> (js_error + 'a) \<times> 's) \<Rightarrow> 's \<Rightarrow> (js_error + 'a) \<times> 's \<times> bool"
where
  "try_body race request s =
     (case race of
        TimedOut \<Rightarrow> (Inl (Error ''Rate limit timeout''), s, False)
      | RemoveFailed e \<Rightarrow> (Inl e, s, False)
      | Removed tokenRemoved \<Rightarrow>
          (if \<not> tokenRemoved
           then (Inl (Error ''Failed to acquire rate limit token''), s, False)
           else (fst (request s), snd (request s), True)))"

text \<open>
  \<open>execute(networkId, request)\<close>. The argument \<open>a\<close> counts the acquisitions the manager
  has made so far, \<open>s\<close> is the state the request runs in and \<open>evs\<close> the events of this
  call so far (\<open>[]\<close> for a call from outside). The retry is the recursive call of the
  source; \<open>None\<close> is an execution that never returns.
\<close>

partial_function (option) execute ::
  "(int \<rightharpoonup> rate_limiter) \<Rightarrow> int \<Rightarrow> (nat \<Rightarrow> acquisition) \<Rightarrow> ('s \<Rightarrow> (js_error + 'a) \<times> 's) \<Rightarrow>
   nat \<Rightarrow> 's \<Rightarrow> rl_event list \<Rightarrow> ('a, 's) execution option"
where
  "execute limiters networkId acquire request a s evs =
     (case limiters networkId of
        None \<Rightarrow>
          Some \<lparr>outcome = Inl (Error (''No rate limiter found for network '' @ string_of_int networkId)),
                final = s, acquisitions = a, events = evs\<rparr>
      | Some limiter \<Rightarrow>
          (case try_body (acquire a) request s of
             (Inr v, s', invoked) \<Rightarrow>
               Some \<lparr>outcome = Inr v, final = s', acquisitions = a + 1,
                     events = evs @ [Acquire DEFAULT_RETRY_TIMEOUT, Invoke]\<rparr>
           | (Inl e, s', invoked) \<Rightarrow>
               (let evs' = evs @ [Acquire DEFAULT_RETRY_TIMEOUT] @ (if invoked then [Invoke] else [])
                in if e = Error ''Rate limit timeout''
                   then execute limiters networkId acquire request (a + 1) s'
                          (evs' @ [Backoff DEFAULT_RETRY_DELAY])
                   else Some \<lparr>outcome = Inl e, final = s', acquisitions = a + 1, events = evs'\<rparr>)))"

text \<open>The events of \<open>n\<close> acquisitions that time out, each followed by the backoff.\<close>

definition timeout_events :: "nat \<Rightarrow> rl_event list" where
  "timeout_events n =
     concat (replicate n [Acquire DEFAULT_RETRY_TIMEOUT, Backoff DEFAULT_RETRY_DELAY])"

text \<open>
  Concrete schedules and requests for the examples; the state of the example requests
  is the number of times they have been invoked.
\<close>

definition always_acquired :: "nat \<Rightarrow> acquisition" where
  "always_acquired a = Removed True"





definition reverting_request :: "nat \<Rightarrow> (js_error + nat) \<times> nat" where
  "reverting_request k = (Inl (Error ''execution reverted''), Suc k)"


section \<open>Chain client and block resolution (src/utils.ts)\<close>

text \<open>
  The chain is read through a viem client. The model takes what the client answers as
  given: the number of the latest block, the timestamp (in seconds) of a block by
  number, and the results of a multicall; each may instead fail with an error. The
  chain is the same for all reads of one resolution. Every read is logged, so that the
  reads a function makes can be counted. Block numbers and timestamps are \<open>bigint\<close>,
  here \<open>int\<close>; \<open>Number(x)\<close> of a \<open>bigint\<close> is taken as exact (true below \<open>2^53\<close>).
\<close>

record contract_call =
  address :: string
  functionName :: string
  args :: "string list"

datatype chain_call = GetBlockNumber | GetBlock int | Multicall "contract_call list" int

record client =
  chain_head :: "js_error + int"
  chain_timestamp :: "int \<Rightarrow> js_error + int"
  chain_multicall :: "contract_call list \<Rightarrow> int \<Rightarrow> js_error + int option list"

definition getBlockNumber :: "client \<Rightarrow> chain_call list \<Rightarrow> (js_error + int) \<times> chain_call list" where
  "getBlockNumber c log = (chain_head c, log @ [GetBlockNumber])"

definition getBlock :: "client \<Rightarrow> int \<Rightarrow> chain_call list \<Rightarrow> (js_error + int) \<times> chain_call list" where
  "getBlock c n log = (chain_timestamp c n, log @ [GetBlock n])"

text \<open>Block times in milliseconds (constants).\<close>

definition NETWORK_BLOCK_TIMES :: "int \<rightharpoonup> int" where
  "NETWORK_BLOCK_TIMES = [1 \<mapsto> 12000, 137 \<mapsto> 2000, 42161 \<mapsto> 250, 8453 \<mapsto> 2000, 10 \<mapsto> 2000]"

definition DEFAULT_BLOCK_TIME :: int where
  "DEFAULT_BLOCK_TIME = 12000"

text \<open>The value \<open>{ blockNumber, blockTimestamp }\<close> that the resolution returns.\<close>

record block_ref =
  blockNumber :: int
  blockTimestamp :: int

text \<open>
  The estimate: \<open>currentBlock - BigInt(Math.floor(timeDiffMs / blockTimeMs))\<close>, with the
  time difference non-negative where it is computed.
\<close>

definition estimatedBlock :: "int \<Rightarrow> int \<Rightarrow> int \<Rightarrow> int \<Rightarrow> int" where
  "estimatedBlock currentBlock currentTimestamp targetTimestamp networkId =
     (let blockTimeMs = (case NETWORK_BLOCK_TIMES networkId of Some t \<Rightarrow> t | None \<Rightarrow> DEFAULT_BLOCK_TIME);
          timeDiffMs = (currentTimestamp - targetTimestamp) * 1000;
          estimatedBlocksAgo = timeDiffMs div blockTimeMs
      in currentBlock - estimatedBlocksAgo)"

text \<open>
  The loop \<open>while (blockData.timestamp > targetTimestamp && blockNumber > 0n)\<close>, entered
  with the estimated block and its timestamp.
\<close>

function walk_backwards ::
  "client \<Rightarrow> int \<Rightarrow> int \<Rightarrow> int \<Rightarrow> chain_call list \<Rightarrow> (js_error + block_ref) \<times> chain_call list"
where
  "walk_backwards c targetTimestamp n timestamp log =
     (if timestamp > targetTimestamp \<and> n > 0 then
        (case getBlock c (n - 1) log of
           (Inl e, log') \<Rightarrow> (Inl e, log')
         | (Inr timestamp', log') \<Rightarrow> walk_backwards c targetTimestamp (n - 1) timestamp' log')
      else (Inr \<lparr>blockNumber = n, blockTimestamp = timestamp\<rparr>, log))"
  by pat_completeness auto
termination
  by (relation "measure (\<lambda>(c, targetTimestamp, n, timestamp, log). nat n)") auto

declare walk_backwards.simps [simp del]

text \<open>
  The variables of the linear search and its \<open>for\<close> loop of at most \<open>n\<close> further steps:
  a step reads the next block, records it when it is at or before the target, and stops
  when the distance to the target does not shrink or comes within one hour.
\<close>

record search_state =
  currentBlockNumber :: int
  closestBlock :: int
  closestDiff :: int
  lastBlockBeforeOrAtTarget :: int
  lastBlockBeforeOrAtTargetTimestamp :: int

fun linear_search ::
  "client \<Rightarrow> int \<Rightarrow> int \<Rightarrow> nat \<Rightarrow> search_state \<Rightarrow> chain_call list \<Rightarrow>
   (js_error + search_state) \<times> chain_call list"
where
  "linear_search c targetTimestamp direction 0 s log = (Inr s, log)"
| "linear_search c targetTimestamp direction (Suc n) s log =
     (let s1 = s\<lparr>currentBlockNumber := currentBlockNumber s + direction\<rparr> in
      case getBlock c (currentBlockNumber s1) log of
        (Inl e, log') \<Rightarrow> (Inl e, log')
      | (Inr timestamp, log') \<Rightarrow>
          (let diff = timestamp - targetTimestamp;
               s2 = (if timestamp \<le> targetTimestamp
                     then s1\<lparr>lastBlockBeforeOrAtTarget := currentBlockNumber s1,
                             lastBlockBeforeOrAtTargetTimestamp := timestamp\<rparr>
                     else s1)
           in if \<bar>diff\<bar> < \<bar>closestDiff s2\<bar> then
                (let s3 = s2\<lparr>closestBlock := currentBlockNumber s2, closestDiff := diff\<rparr>
                 in if \<bar>diff\<bar> \<le> 3600
                    then (Inr (s3\<lparr>closestBlock := currentBlockNumber s3\<rparr>), log')
                    else linear_search c targetTimestamp direction n s3 log')
              else (Inr s2, log')))"

definition findBlockNumberForTimestamp ::
  "client \<Rightarrow> int \<Rightarrow> int \<Rightarrow> chain_call list \<Rightarrow> (js_error + block_ref) \<times> chain_call list"
where
  "findBlockNumberForTimestamp c targetTimestamp networkId log =
     (case getBlockNumber c log of
        (Inl e, log1) \<Rightarrow> (Inl e, log1)
      | (Inr currentBlock, log1) \<Rightarrow>
     (case getBlock c currentBlock log1 of
        (Inl e, log2) \<Rightarrow> (Inl e, log2)
      | (Inr currentTimestamp, log2) \<Rightarrow>
          if targetTimestamp > currentTimestamp
          then (Inr \<lparr>blockNumber = currentBlock, blockTimestamp = currentTimestamp\<rparr>, log2)
          else
            (let est = estimatedBlock currentBlock currentTimestamp targetTimestamp networkId in
             case getBlock c est log2 of
               (Inl e, log3) \<Rightarrow> (Inl e, log3)
             | (Inr estimatedTimestamp, log3) \<Rightarrow>
                 if estimatedTimestamp > targetTimestamp
                 then walk_backwards c targetTimestamp est estimatedTimestamp log3
                 else if \<bar>estimatedTimestamp - targetTimestamp\<bar> \<le> 3600
                 then (Inr \<lparr>blockNumber = est, blockTimestamp = estimatedTimestamp\<rparr>, log3)
                 else
                   (let direction = (if estimatedTimestamp > targetTimestamp then - 1 else 1) in
                    case linear_search c targetTimestamp direction 100
                           \<lparr>currentBlockNumber = est, closestBlock = est,
                            closestDiff = estimatedTimestamp - targetTimestamp,
                            lastBlockBeforeOrAtTarget = est,
                            lastBlockBeforeOrAtTargetTimestamp = estimatedTimestamp\<rparr> log3 of
                      (Inl e, log4) \<Rightarrow> (Inl e, log4)
                    | (Inr s, log4) \<Rightarrow>
                        (case getBlock c (closestBlock s) log4 of
                           (Inl e, log5) \<Rightarrow> (Inl e, log5)
                         | (Inr finalBlockTimestamp, log5) \<Rightarrow>
                             if finalBlockTimestamp > targetTimestamp
                             then (Inr \<lparr>blockNumber = lastBlockBeforeOrAtTarget s,
                                        blockTimestamp = lastBlockBeforeOrAtTargetTimestamp s\<rparr>, log5)
                             else (Inr \<lparr>blockNumber = closestBlock s,
                                        blockTimestamp = finalBlockTimestamp\<rparr>, log5))))))"

text \<open>
  The search window of a resolution that goes past the future check: the blocks from the
  estimate down to block 0 when the estimate lies after the target (the backward walk),
  and otherwise the estimate and the 100 blocks after it (the linear search).
\<close>

definition in_search_window :: "client \<Rightarrow> int \<Rightarrow> int \<Rightarrow> int \<Rightarrow> int \<Rightarrow> int \<Rightarrow> bool" where
  "in_search_window c currentBlock currentTimestamp targetTimestamp networkId b =
     (let est = estimatedBlock currentBlock currentTimestamp targetTimestamp networkId in
      case chain_timestamp c est of
        Inl e \<Rightarrow> False
      | Inr estimatedTimestamp \<Rightarrow>
          if estimatedTimestamp > targetTimestamp then 0 \<le> b \<and> b \<le> est
          else est \<le> b \<and> b \<le> est + 100)"

text \<open>
  The invariant of the linear search: the recorded last block at or before the target
  is a block of the chain with that timestamp, and the timestamp is not after the target.
\<close>

definition search_inv :: "client \<Rightarrow> int \<Rightarrow> search_state \<Rightarrow> bool" where
  "search_inv c T s =
     (lastBlockBeforeOrAtTargetTimestamp s \<le> T \<and>
      chain_timestamp c (lastBlockBeforeOrAtTarget s) = Inr (lastBlockBeforeOrAtTargetTimestamp s))"

text \<open>
  Example chains of 101 blocks: one with a block every 11 seconds, and one that halted for
  10000 seconds after block 50.
\<close>

definition block_not_found :: js_error where
  "block_not_found = Error ''block not found''"

definition fast_chain :: client where
  "fast_chain =
     \<lparr>chain_head = Inr 100,
      chain_timestamp = (\<lambda>n. if 0 \<le> n \<and> n \<le> 100 then Inr (1700000000 + 11 * n)
                              else Inl block_not_found),
      chain_multicall = (\<lambda>calls n. Inl block_not_found)\<rparr>"

definition halted_chain :: client where
  "halted_chain =
     \<lparr>chain_head = Inr 100,
      chain_timestamp = (\<lambda>n. if 0 \<le> n \<and> n \<le> 50 then Inr (1700000000 + 12 * n)
                              else if n \<le> 100 then Inr (1700010000 + 12 * n)
                              else Inl block_not_found),
      chain_multicall = (\<lambda>calls n. Inl block_not_found)\<rparr>"

section \<open>Batched balance reads (src/utils.ts)\<close>

text \<open>The two kinds of calls of the multicall, for a standardized wallet address.\<close>

definition native_call :: "string \<Rightarrow> contract_call" where
  "native_call walletAddress =
     \<lparr>address = MULTICALL3_ADDRESS, functionName = ''getEthBalance'', args = [walletAddress]\<rparr>"

definition token_call :: "token \<Rightarrow> string \<Rightarrow> contract_call" where
  "token_call t walletAddress =
     \<lparr>address = tok_address t, functionName = ''balanceOf'', args = [walletAddress]\<rparr>"

definition allCalls :: "string list \<Rightarrow> token list \<Rightarrow> contract_call list" where
  "allCalls walletAddresses tokens =
     map native_call walletAddresses
     @ concat (map (\<lambda>t. map (token_call t) walletAddresses) tokens)"

text \<open>
  \<open>results[i].result?.toString() || '0'\<close>: reading \<open>.result\<close> of an element that is not
  there throws a \<open>TypeError\<close>; an element whose result is \<open>undefined\<close> gives \<open>'0'\<close>.
\<close>

definition undefined_result_error :: js_error where
  "undefined_result_error = Error ''Cannot read properties of undefined (reading result)''"

definition result_text :: "int option \<Rightarrow> string" where
  "result_text r =
     (case r of
        None \<Rightarrow> ''0''
      | Some v \<Rightarrow> (if string_of_int v = [] then ''0'' else string_of_int v))"

definition balance_text :: "int option list \<Rightarrow> nat \<Rightarrow> js_error + string" where
  "balance_text results i =
     (if i < length results then Inr (result_text (results ! i))
      else Inl undefined_result_error)"

definition walletTokenBalances ::
  "token list \<Rightarrow> int option list \<Rightarrow> nat \<Rightarrow> nat \<Rightarrow> js_error + token_balance list"
where
  "walletTokenBalances tokens tokenBalanceResults walletsPerToken walletIndex =
     collect (map (\<lambda>(tokenIndex, t).
                 case balance_text tokenBalanceResults (tokenIndex * walletsPerToken + walletIndex) of
                   Inl e \<Rightarrow> Inl e
                 | Inr b \<Rightarrow> Inr \<lparr>tb_address = tok_address t, tb_symbol = tok_symbol t,
                                  tb_balance = b, tb_decimals = tok_decimals t\<rparr>)
               (zip [0..<length tokens] tokens))"

definition decode_wallet ::
  "network \<Rightarrow> int option list \<Rightarrow> nat \<Rightarrow> (nat \<times> wallet) \<Rightarrow> js_error + wallet_balance"
where
  "decode_wallet net results walletsPerToken iw =
     (case iw of (walletIndex, w) \<Rightarrow>
      let nativeBalanceResults = take walletsPerToken results;
          tokenBalanceResults = drop walletsPerToken results
      in case balance_text nativeBalanceResults walletIndex of
           Inl e \<Rightarrow> Inl e
         | Inr nativeBalance \<Rightarrow>
             (case walletTokenBalances (net_tokens net) tokenBalanceResults walletsPerToken walletIndex of
                Inl e \<Rightarrow> Inl e
              | Inr tbs \<Rightarrow>
                  Inr \<lparr>wb_address = w_address w, wb_label = w_label w, wb_network = net_name net,
                       wb_network_id = net_id net, wb_native_balance = nativeBalance,
                       wb_tokens = tbs, wb_date = ''''\<rparr>))"

text \<open>
  \<open>getWalletsBalances(client, wallets, network, blockNumber)\<close>: the wallets are
  standardized (the first invalid address throws), one multicall is made, and its results
  are decoded wallet by wallet.
\<close>

definition standardizedWallets :: "(string \<Rightarrow> bool) \<Rightarrow> wallet list \<Rightarrow> js_error + wallet list" where
  "standardizedWallets isAddress wallets =
     collect (map (\<lambda>w. case standardizeAddress isAddress (w_address w) of
                          Inl e \<Rightarrow> Inl e
                        | Inr a \<Rightarrow> Inr (w\<lparr>w_address := a\<rparr>)) wallets)"

definition multicall ::
  "client \<Rightarrow> contract_call list \<Rightarrow> int \<Rightarrow> chain_call list \<Rightarrow>
   (js_error + int option list) \<times> chain_call list"
where
  "multicall c contracts n log = (chain_multicall c contracts n, log @ [Multicall contracts n])"

definition getWalletsBalances ::
  "(string \<Rightarrow> bool) \<Rightarrow> client \<Rightarrow> wallet list \<Rightarrow> network \<Rightarrow> int \<Rightarrow> chain_call list \<Rightarrow>
   (js_error + wallet_balance list) \<times> chain_call list"
where
  "getWalletsBalances isAddress c wallets net n log =
     (case standardizedWallets isAddress wallets of
        Inl e \<Rightarrow> (Inl e, log)
      | Inr ws \<Rightarrow>
          (case multicall c (allCalls (map w_address ws) (net_tokens net)) n log of
             (Inl e, log') \<Rightarrow> (Inl e, log')
           | (Inr results, log') \<Rightarrow>
               (collect (map (decode_wallet net results (length ws)) (zip [0..<length ws] ws)),
                log')))"

text \<open>
  The balance of wallet \<open>i\<close> as it is read off an order-aligned result list: the native
  balance from index \<open>i\<close>, the balance of token \<open>j\<close> from index
  \<open>|wallets| + j * |wallets| + i\<close>.
\<close>

definition decoded_balance :: "wallet list \<Rightarrow> network \<Rightarrow> int option list \<Rightarrow> nat \<Rightarrow> wallet_balance" where
  "decoded_balance wallets net results i =
     \<lparr>wb_address = toLowerCase (w_address (wallets ! i)), wb_label = w_label (wallets ! i),
      wb_network = net_name net, wb_network_id = net_id net,
      wb_native_balance = result_text (results ! i),
      wb_tokens = map (\<lambda>j. \<lparr>tb_address = tok_address (net_tokens net ! j),
                             tb_symbol = tok_symbol (net_tokens net ! j),
                             tb_balance = result_text
                               (results ! (length wallets + j * length wallets + i)),
                             tb_decimals = tok_decimals (net_tokens net ! j)\<rparr>)
                    [0..<length (net_tokens net)],
      wb_date = ''''\<rparr>"

text \<open>An example: two wallets, a network with two tokens, and a client whose multicall
  answers six results, the second and the fifth without a value.\<close>

definition hex_address :: "string \<Rightarrow> bool" where
  "hex_address s = (length s = 42 \<and> take 2 s = ''0x'')"

definition example_wallets :: "wallet list" where
  "example_wallets =
     [\<lparr>w_address = ''0x1234567890123456789012345678901234567890'', w_label = Some ''Main Wallet''\<rparr>,
      \<lparr>w_address = ''0x5aAeb6053F3E94C9b9A09f33669435E7Ef1BeAed'', w_label = None\<rparr>]"

definition example_network :: network where
  "example_network =
     \<lparr>net_id = 1, net_name = ''Ethereum'', net_rpc_url = ''http://localhost:8545'',
      net_native_token = \<lparr>nt_symbol = ''ETH'', nt_decimals = 18\<rparr>,
      net_tokens =
        [\<lparr>tok_address = ''0xA0b86991c6218b36c1d19D4a2e9Eb0cE3606eB48'', tok_symbol = ''USDC'',
          tok_decimals = 6\<rparr>,
         \<lparr>tok_address = ''0xC02aaA39b223FE8D0A0e5C4F27eAD9083C756Cc2'', tok_symbol = ''WETH'',
          tok_decimals = 18\<rparr>]\<rparr>"

definition example_results :: "int option list" where
  "example_results = [Some 5, None, Some 7, Some 8, None, Some 10]"

definition example_client :: client where
  "example_client =
     \<lparr>chain_head = Inr 100,
      chain_timestamp = (\<lambda>n. Inr (1700000000 + 12 * n)),
      chain_multicall = (\<lambda>calls n. Inr example_results)\<rparr>"

section \<open>Persistence (src/database.ts)\<close>

text \<open>
  The two tables, as lists of rows. A \<open>timestamp\<close> column holds the ISO string of a
  \<open>Date\<close>, represented by the time value; \<open>block_number\<close> holds the decimal text of a
  \<open>bigint\<close>, represented by the integer.
\<close>

record balance_row =
  r_wallet_address :: string
  r_network_id :: int
  r_token_address :: string
  r_symbol :: string
  r_balance :: string
  r_block_number :: int
  r_timestamp :: date
  r_date :: string

record block_mapping_row =
  bm_network_id :: int
  bm_date :: string
  bm_block_number :: int
  bm_timestamp :: int

text \<open>
  A \<open>BalanceDatabase\<close>: the networks of its configuration, the tables, the names of the
  events it has emitted, and the number of times it has run a \<open>saveBalances\<close>
  transaction.
\<close>

record database =
  config_networks :: "network list"
  balances :: "balance_row list"
  block_mapping :: "block_mapping_row list"
  emitted :: "string list"
  transactions :: nat

text \<open>
  The conflict target of the upsert,
  \<open>(LOWER(wallet_address), network_id, LOWER(token_address), date)\<close>.
\<close>

definition row_key :: "balance_row \<Rightarrow> string \<times> int \<times> string \<times> string" where
  "row_key r =
     (toLowerCase (r_wallet_address r), r_network_id r, toLowerCase (r_token_address r), r_date r)"

text \<open>
  One run of the prepared statement \<open>INSERT ... ON CONFLICT (...) DO UPDATE SET symbol,
  balance, block_number, timestamp\<close>: the row in conflict, if there is one, takes the four
  values of the new row; otherwise the new row is inserted.
\<close>

fun upsert :: "balance_row \<Rightarrow> balance_row list \<Rightarrow> balance_row list" where
  "upsert new [] = [new]"
| "upsert new (r # rs) =
     (if row_key r = row_key new
      then r\<lparr>r_symbol := r_symbol new, r_balance := r_balance new,
              r_block_number := r_block_number new, r_timestamp := r_timestamp new\<rparr> # rs
      else r # upsert new rs)"

text \<open>The \<open>forEach\<close> over the token balances inside the transaction.\<close>

fun save_tokens ::
  "(string \<Rightarrow> bool) \<Rightarrow> string \<Rightarrow> int \<Rightarrow> int \<Rightarrow> date \<Rightarrow> string \<Rightarrow> token_balance list \<Rightarrow>
   balance_row list \<Rightarrow> js_error + balance_row list"
where
  "save_tokens isAddress standardizedAddress networkId n ts dateStr [] rows = Inr rows"
| "save_tokens isAddress standardizedAddress networkId n ts dateStr (t # tbs) rows =
     (case standardizeAddress isAddress (tb_address t) of
        Inl e \<Rightarrow> Inl e
      | Inr tokenAddress \<Rightarrow>
          save_tokens isAddress standardizedAddress networkId n ts dateStr tbs
            (upsert \<lparr>r_wallet_address = standardizedAddress, r_network_id = networkId,
                     r_token_address = tokenAddress, r_symbol = tb_symbol t,
                     r_balance = tb_balance t, r_block_number = n, r_timestamp = ts,
                     r_date = dateStr\<rparr> rows))"

text \<open>
  \<open>saveBalances(walletBalance, blockNumber, dateStr, timestamp)\<close>. An unknown network
  name returns at once; an invalid wallet address throws before the transaction; inside
  the transaction the native row is written, then the token rows, and an error rolls the
  table back, emits the two error events and is thrown again.
\<close>

definition saveBalances ::
  "(string \<Rightarrow> bool) \<Rightarrow> database \<Rightarrow> wallet_balance \<Rightarrow> int \<Rightarrow> string \<Rightarrow> date \<Rightarrow>
   (js_error + unit) \<times> database"
where
  "saveBalances isAddress db walletBalance n dateStr ts =
     (case find (\<lambda>net. net_name net = wb_network walletBalance) (config_networks db) of
        None \<Rightarrow> (Inr (), db)
      | Some net \<Rightarrow>
          (case standardizeAddress isAddress (wb_address walletBalance) of
             Inl e \<Rightarrow> (Inl e, db)
           | Inr standardizedAddress \<Rightarrow>
               (case save_tokens isAddress standardizedAddress (net_id net) n ts dateStr
                       (wb_tokens walletBalance)
                       (upsert \<lparr>r_wallet_address = standardizedAddress, r_network_id = net_id net,
                                r_token_address = NATIVE_TOKEN_ADDRESS,
                                r_symbol = nt_symbol (net_native_token net),
                                r_balance = wb_native_balance walletBalance,
                                r_block_number = n, r_timestamp = ts, r_date = dateStr\<rparr>
                          (balances db)) of
                  Inl e \<Rightarrow>
                    (Inl e, db\<lparr>transactions := transactions db + 1,
                               emitted := emitted db
                                 @ [''DB saveBalances error'', ''DB saveBalances TX error'']\<rparr>)
                | Inr rows \<Rightarrow>
                    (Inr (), db\<lparr>balances := rows, transactions := transactions db + 1,
                                emitted := emitted db @ [''balancesChanged'']\<rparr>))))"

text \<open>
  The rows whose statements a successful \<open>saveBalances\<close> runs, in order, and the rows of
  the table with a given key.
\<close>

definition written_rows :: "network \<Rightarrow> wallet_balance \<Rightarrow> int \<Rightarrow> string \<Rightarrow> date \<Rightarrow> balance_row list" where
  "written_rows net walletBalance n dateStr ts =
     \<lparr>r_wallet_address = toLowerCase (wb_address walletBalance), r_network_id = net_id net,
      r_token_address = NATIVE_TOKEN_ADDRESS, r_symbol = nt_symbol (net_native_token net),
      r_balance = wb_native_balance walletBalance, r_block_number = n, r_timestamp = ts,
      r_date = dateStr\<rparr>
     # map (\<lambda>t. \<lparr>r_wallet_address = toLowerCase (wb_address walletBalance),
                   r_network_id = net_id net, r_token_address = toLowerCase (tb_address t),
                   r_symbol = tb_symbol t, r_balance = tb_balance t, r_block_number = n,
                   r_timestamp = ts, r_date = dateStr\<rparr>) (wb_tokens walletBalance)"

definition rows_for :: "string \<times> int \<times> string \<times> string \<Rightarrow> balance_row list \<Rightarrow> balance_row list" where
  "rows_for k rows = filter (\<lambda>r. row_key r = k) rows"

definition row_values :: "balance_row \<Rightarrow> string \<times> string \<times> int \<times> date" where
  "row_values r = (r_symbol r, r_balance r, r_block_number r, r_timestamp r)"

text \<open>\<open>getBlockNumberForDate(networkId, date)\<close> of the database and \<open>saveBlockMapping\<close>
  (\<open>INSERT OR REPLACE\<close> on the primary key \<open>(network_id, date)\<close>).\<close>

definition BalanceDatabase_getBlockNumberForDate :: "database \<Rightarrow> int \<Rightarrow> string \<Rightarrow> int option" where
  "BalanceDatabase_getBlockNumberForDate db networkId dateStr =
     (case find (\<lambda>r. bm_network_id r = networkId \<and> bm_date r = dateStr) (block_mapping db) of
        None \<Rightarrow> None
      | Some r \<Rightarrow> Some (bm_block_number r))"

definition saveBlockMapping :: "database \<Rightarrow> int \<Rightarrow> string \<Rightarrow> int \<Rightarrow> int \<Rightarrow> database" where
  "saveBlockMapping db networkId dateStr n ts =
     db\<lparr>block_mapping :=
          filter (\<lambda>r. \<not> (bm_network_id r = networkId \<and> bm_date r = dateStr)) (block_mapping db)
          @ [\<lparr>bm_network_id = networkId, bm_date = dateStr, bm_block_number = n,
              bm_timestamp = ts\<rparr>],
        emitted := emitted db @ [''blockMappingChanged'']\<rparr>"

text \<open>
  An example: two writes for the same wallet, network and date, with different values
  (the token address in different letter case).
\<close>

definition example_db :: database where
  "example_db =
     \<lparr>config_networks = [example_network], balances = [], block_mapping = [], emitted = [],
      transactions = 0\<rparr>"

definition first_write :: wallet_balance where
  "first_write =
     \<lparr>wb_address = ''0x1234567890123456789012345678901234567890'', wb_label = None,
      wb_network = ''Ethereum'', wb_network_id = 1, wb_native_balance = ''111'',
      wb_tokens = [\<lparr>tb_address = ''0xA0b86991c6218b36c1d19D4a2e9Eb0cE3606eB48'',
                    tb_symbol = ''USDC'', tb_balance = ''5'', tb_decimals = 6\<rparr>],
      wb_date = []\<rparr>"

definition second_write :: wallet_balance where
  "second_write =
     \<lparr>wb_address = ''0x1234567890123456789012345678901234567890'', wb_label = None,
      wb_network = ''Ethereum'', wb_network_id = 1, wb_native_balance = ''222'',
      wb_tokens = [\<lparr>tb_address = ''0xa0b86991c6218b36c1d19d4a2e9eb0ce3606eb48'',
                    tb_symbol = ''USDC.e'', tb_balance = ''7'', tb_decimals = 6\<rparr>],
      wb_date = []\<rparr>"

definition after_first :: database where
  "after_first = snd (saveBalances hex_address example_db first_write 100 ''2024-01-01'' 1704153590000)"

definition after_second :: database where
  "after_second = snd (saveBalances hex_address after_first second_write 101 ''2024-01-01'' 1704153599000)"

definition usdc_key :: "string \<times> int \<times> string \<times> string" where
  "usdc_key = (''0x1234567890123456789012345678901234567890'', 1,
               ''0xa0b86991c6218b36c1d19d4a2e9eb0ce3606eb48'', ''2024-01-01'')"

section \<open>Wallet tracker (src/wallet-tracker.ts)\<close>

text \<open>
  \<open>toISODateString(date)\<close> is \<open>date.toISOString().split('T')[0]\<close>: the UTC calendar date
  \<open>YYYY-MM-DD\<close> of the day number, for the years 0000 to 9999. The calendar date of a
  day number (days since 1970-01-01) is computed in the proleptic Gregorian calendar,
  with the year taken to begin in March while counting.
\<close>

definition civil_from_days :: "int \<Rightarrow> int \<times> int \<times> int" where
  "civil_from_days days =
     (let z = days + 719468;
          era = z div 146097;
          doe = z - era * 146097;
          yoe = (doe - doe div 1460 + doe div 36524 - doe div 146096) div 365;
          doy = doe - (365 * yoe + yoe div 4 - yoe div 100);
          mp = (5 * doy + 2) div 153;
          day = doy - (153 * mp + 2) div 5 + 1;
          month = (if mp < 10 then mp + 3 else mp - 9);
          year = yoe + era * 400 + (if month \<le> 2 then 1 else 0)
      in (year, month, day))"

definition padStart :: "nat \<Rightarrow> string \<Rightarrow> string" where
  "padStart n s = replicate (n - length s) (CHR ''0'') @ s"

definition toISODateString :: "date \<Rightarrow> string" where
  "toISODateString d =
     (case civil_from_days (d div MS_PER_DAY) of
        (year, month, day) \<Rightarrow>
          padStart 4 (string_of_int year) @ ''-'' @ padStart 2 (string_of_int month)
          @ ''-'' @ padStart 2 (string_of_int day))"

text \<open>
  The \<open>try\<close> block of \<open>getBlockNumberForDate\<close> and its \<open>catch\<close>: the end of the day in
  Unix seconds is resolved and the mapping saved; if the resolution throws, the current
  block number is returned and nothing is saved.
\<close>

definition resolve_and_save ::
  "client \<Rightarrow> database \<Rightarrow> date \<Rightarrow> string \<Rightarrow> int \<Rightarrow> chain_call list \<Rightarrow>
   (js_error + int) \<times> database \<times> chain_call list"
where
  "resolve_and_save c db d dateStr networkId log =
     (let endOfDay = setUTCHours d 23 59 59 999;
          targetTimestamp = endOfDay div 1000
      in case findBlockNumberForTimestamp c targetTimestamp networkId log of
           (Inr r, log') \<Rightarrow>
             (Inr (blockNumber r),
              saveBlockMapping db networkId dateStr (blockNumber r) (blockTimestamp r), log')
         | (Inl e, log') \<Rightarrow>
             (case getBlockNumber c log' of (currentBlock, log'') \<Rightarrow> (currentBlock, db, log'')))"

text \<open>
  \<open>WalletTracker.getBlockNumberForDate(date, networkId)\<close>, with the client of the
  network. The test \<open>if (existingBlock)\<close> on a \<open>bigint | null\<close> fails for \<open>null\<close> and
  for \<open>0n\<close>.
\<close>

definition WalletTracker_getBlockNumberForDate ::
  "client \<Rightarrow> database \<Rightarrow> date \<Rightarrow> int \<Rightarrow> chain_call list \<Rightarrow>
   (js_error + int) \<times> database \<times> chain_call list"
where
  "WalletTracker_getBlockNumberForDate c db d networkId log =
     (let dateStr = toISODateString d in
      case BalanceDatabase_getBlockNumberForDate db networkId dateStr of
        None \<Rightarrow> resolve_and_save c db d dateStr networkId log
      | Some existingBlock \<Rightarrow>
          if existingBlock \<noteq> 0 then (Inr existingBlock, db, log)
          else resolve_and_save c db d dateStr networkId log)"

text \<open>
  A chain whose first block is ten seconds younger than 2024-01-01T00:00:00Z, with a
  block every twelve seconds and block 5 the latest.
\<close>

definition young_chain :: client where
  "young_chain =
     \<lparr>chain_head = Inr 5,
      chain_timestamp = (\<lambda>n. if 0 \<le> n \<and> n \<le> 5 then Inr (1704067210 + 12 * n)
                              else Inl block_not_found),
      chain_multicall = (\<lambda>calls n. Inl block_not_found)\<rparr>"

text \<open>The state of a tracker: its database, the log of its chain reads, the number of
  acquisitions of its rate limiter and the limiter's events.\<close>

record tracker =
  the_db :: database
  chain_log :: "chain_call list"
  acquired :: nat
  limiter_events :: "rl_event list"

text \<open>What a tracker is built from or runs against: viem's address predicate, the
  clients by network id, the limiters, and how the acquisitions settle.\<close>

record environment =
  env_isAddress :: "string \<Rightarrow> bool"
  env_clients :: "int \<Rightarrow> client"
  env_limiters :: "int \<rightharpoonup> rate_limiter"
  env_acquire :: "nat \<Rightarrow> acquisition"

definition WALLET_BALANCE_BATCH_SIZE :: nat where
  "WALLET_BALANCE_BATCH_SIZE = 5"

text \<open>\<open>balances.forEach(balance => this.db.saveBalances(...))\<close>.\<close>

fun save_each ::
  "(string \<Rightarrow> bool) \<Rightarrow> wallet_balance list \<Rightarrow> int \<Rightarrow> string \<Rightarrow> date \<Rightarrow> database \<Rightarrow>
   (js_error + unit) \<times> database"
where
  "save_each isA [] n dateStr ts db = (Inr (), db)"
| "save_each isA (b # bs) n dateStr ts db =
     (case saveBalances isA db b n dateStr ts of
        (Inl e, db') \<Rightarrow> (Inl e, db')
      | (Inr u, db') \<Rightarrow> save_each isA bs n dateStr ts db')"

text \<open>
  \<open>fetchAndSaveWalletBatches(wallets, network, blockNumber, dateStr, blockTimestampDate)\<close>:
  the loop \<open>for (let i = 0; i < wallets.length; i += WALLET_BALANCE_BATCH_SIZE)\<close> from
  index \<open>i\<close> on. \<open>None\<close> is a run that never returns.
\<close>

function fetchAndSaveWalletBatches ::
  "environment \<Rightarrow> wallet list \<Rightarrow> nat \<Rightarrow> network \<Rightarrow> int \<Rightarrow> string \<Rightarrow> date \<Rightarrow> tracker \<Rightarrow>
   ((js_error + unit) \<times> tracker) option"
where
  "fetchAndSaveWalletBatches env wallets i net n dateStr ts w =
     (if i < length wallets then
        (let walletBatch = take WALLET_BALANCE_BATCH_SIZE (drop i wallets) in
         case execute (env_limiters env) (net_id net) (env_acquire env)
                (getWalletsBalances (env_isAddress env) (env_clients env (net_id net)) walletBatch net n)
                (acquired w) (chain_log w) [] of
           None \<Rightarrow> None
         | Some ex \<Rightarrow>
             (let w1 = w\<lparr>chain_log := final ex, acquired := acquisitions ex,
                         limiter_events := limiter_events w @ events ex\<rparr>
              in case outcome ex of
                   Inl e \<Rightarrow> Some (Inl e, w1)
                 | Inr bals \<Rightarrow>
                     (case save_each (env_isAddress env) bals n dateStr ts (the_db w1) of
                        (Inl e, db') \<Rightarrow> Some (Inl e, w1\<lparr>the_db := db'\<rparr>)
                      | (Inr u, db') \<Rightarrow>
                          fetchAndSaveWalletBatches env wallets (i + WALLET_BALANCE_BATCH_SIZE)
                            net n dateStr ts (w1\<lparr>the_db := db'\<rparr>))))
      else Some (Inr (), w))"
  by pat_completeness auto
termination
  by (relation "measure (\<lambda>(env, wallets, i, net, n, dateStr, ts, w). length wallets - i)")
    (auto simp: WALLET_BALANCE_BATCH_SIZE_def)

declare fetchAndSaveWalletBatches.simps [simp del]

text \<open>The database of the example after block 0 has been cached for 2023-12-31 on
  network 31337.\<close>

definition zero_cached_db :: database where
  "zero_cached_db =
     example_db\<lparr>block_mapping :=
                  [\<lparr>bm_network_id = 31337, bm_date = ''2023-12-31'', bm_block_number = 0,
                    bm_timestamp = 1704067210\<rparr>],
                emitted := [''blockMappingChanged'']\<rparr>"

text \<open>The database of the example after block 100 of the chain with a block every 11
  seconds has been cached for 2023-11-14 on network 1.\<close>

definition head_cached_db :: database where
  "head_cached_db =
     example_db\<lparr>block_mapping :=
                  [\<lparr>bm_network_id = 1, bm_date = ''2023-11-14'', bm_block_number = 100,
                    bm_timestamp = 1700001100\<rparr>],
                emitted := [''blockMappingChanged'']\<rparr>"

text \<open>The batches the loop visits from index \<open>i\<close> on: \<open>wallets.slice(i, i + 5)\<close>,
  then those from \<open>i + 5\<close>.\<close>

function batches_from :: "nat \<Rightarrow> 'a list \<Rightarrow> 'a list list" where
  "batches_from i xs =
     (if i < length xs
      then take WALLET_BALANCE_BATCH_SIZE (drop i xs)
           # batches_from (i + WALLET_BALANCE_BATCH_SIZE) xs
      else [])"
  by pat_completeness auto
termination
  by (relation "measure (\<lambda>(i, xs). length xs - i)") (auto simp: WALLET_BALANCE_BATCH_SIZE_def)

declare batches_from.simps [simp del]

text \<open>The multicall that \<open>getWalletsBalances\<close> makes for a batch.\<close>

definition batch_multicall :: "network \<Rightarrow> int \<Rightarrow> wallet list \<Rightarrow> chain_call" where
  "batch_multicall net n batch =
     Multicall (allCalls (map (\<lambda>w. toLowerCase (w_address w)) batch) (net_tokens net)) n"

text \<open>
  An example run: twelve wallets for the example network at block 100, with a client
  whose multicall answers every call with the value 1, a limiter that always grants the
  token, and a tracker that has done nothing yet.
\<close>

definition twelve_wallets :: "wallet list" where
  "twelve_wallets =
     map (\<lambda>s. \<lparr>w_address = ''0x00000000000000000000000000000000000000'' @ s, w_label = None\<rparr>)
       [''01'', ''02'', ''03'', ''04'', ''05'', ''06'', ''07'', ''08'', ''09'', ''0a'', ''0b'',
        ''0c'']"

definition answering_client :: client where
  "answering_client =
     \<lparr>chain_head = Inr 100,
      chain_timestamp = (\<lambda>n. Inr (1700000000 + 12 * n)),
      chain_multicall = (\<lambda>calls n. Inr (map (\<lambda>c. Some 1) calls))\<rparr>"

definition example_env :: environment where
  "example_env =
     \<lparr>env_isAddress = hex_address, env_clients = (\<lambda>networkId. answering_client),
      env_limiters = RateLimiterManager [1, 137], env_acquire = always_acquired\<rparr>"

definition new_tracker :: tracker where
  "new_tracker = \<lparr>the_db = example_db, chain_log = [], acquired = 0, limiter_events = []\<rparr>"

definition example_run :: "((js_error + unit) \<times> tracker) option" where
  "example_run =
     fetchAndSaveWalletBatches example_env twelve_wallets 0 example_network 100 ''2024-01-01''
       1704153599000 new_tracker"

text \<open>What is read off a run: whether it returned without error, the chain reads it
  logged, and the number of transactions of its database.\<close>

definition succeeded :: "((js_error + unit) \<times> tracker) option \<Rightarrow> bool" where
  "succeeded run = (case run of Some (Inr u, w) \<Rightarrow> True | _ \<Rightarrow> False)"

definition chain_log_of :: "((js_error + unit) \<times> tracker) option \<Rightarrow> chain_call list" where
  "chain_log_of run = (case run of Some (r, w) \<Rightarrow> chain_log w | None \<Rightarrow> [])"

definition transactions_of :: "((js_error + unit) \<times> tracker) option \<Rightarrow> nat" where
  "transactions_of run = (case run of Some (r, w) \<Rightarrow> transactions (the_db w) | None \<Rightarrow> 0)"

section \<open>Fetching missing balances (src/utils.ts, src/wallet-tracker.ts)\<close>



























section \<open>Calendar dates and letter case of the examples\<close>

lemma civil_from_days_examples:
  "civil_from_days 19723 = (2024, 1, 1)"
  "civil_from_days 19722 = (2023, 12, 31)"
  "civil_from_days 19675 = (2023, 11, 14)"
  unfolding civil_from_days_def Let_def by simp_all

lemma toISODateString_examples:
  "toISODateString 1704067200000 = ''2024-01-01''"
  "toISODateString 1704153599999 = ''2024-01-01''"
  "toISODateString 1703980800000 = ''2023-12-31''"
  "toISODateString 1699920000000 = ''2023-11-14''"
  by (simp_all add: toISODateString_def MS_PER_DAY_def civil_from_days_examples padStart_def
      string_of_int_def digit_char_def)

text \<open>The lower-case mapping on the letters and around them.\<close>

lemma toLowerCase_alphabet:
  "toLowerCase ''ABCDEFGHIJKLMNOPQRSTUVWXYZ'' = ''abcdefghijklmnopqrstuvwxyz''"
  "toLowerCase ''@[`{09azx'' = ''@[`{09azx''"
  by (simp_all add: toLowerCase_def)

section \<open>Freshness rule\<close>

lemma getEndOfDay_same_day:
  "getEndOfDay d div MS_PER_DAY = d div MS_PER_DAY"
  by (simp add: getEndOfDay_def setUTCHours_def MS_PER_DAY_def)

lemma getEndOfDay_last_ms:
  "getEndOfDay d = (d div MS_PER_DAY + 1) * MS_PER_DAY - 1"
  by (simp add: getEndOfDay_def setUTCHours_def MS_PER_DAY_def algebra_simps)

text \<open>
  C3. For a stored timestamp \<open>ts\<close>, \<open>isBalanceTimestampValid\<close> is true for a historical
  date exactly when \<open>ts\<close> is at most 3 hours (10800000 ms, inclusive) away from the last
  millisecond (23:59:59.999 UTC) of that date's UTC day, and for today exactly when it is
  at most 1 hour (3600000 ms, inclusive) away from the current instant. Concretely, with
  2024-01-01T00:00:00.000Z = 1704067200000 ms (whose date string is \<open>2024-01-01\<close>) and
  so 2024-01-02T00:00:00Z = 1704153600000: for the date 2024-01-01 the timestamp
  2024-01-02T02:00:00Z (1704153600000 + 7200000) is valid and 2024-01-02T03:01:00Z
  (1704153600000 + 10860000) is invalid; for today a timestamp 59 minutes old is valid and
  one 61 minutes old is not.
\<close>

theorem isBalanceTimestampValid_freshness:
  "isBalanceTimestampValid (Some ts) d False now =
     (\<bar>((d div 86400000) * 86400000 + 86399999) - ts\<bar> \<le> 10800000)
   \<and> isBalanceTimestampValid (Some ts) d True now = (\<bar>now - ts\<bar> \<le> 3600000)
   \<and> toISODateString 1704067200000 = ''2024-01-01''
   \<and> getEndOfDay 1704067200000 = 1704153599999
   \<and> isBalanceTimestampValid (Some (1704153600000 + 7200000)) 1704067200000 False now
   \<and> \<not> isBalanceTimestampValid (Some (1704153600000 + 10860000)) 1704067200000 False now
   \<and> isBalanceTimestampValid (Some (now - 59 * 60000)) d True now
   \<and> \<not> isBalanceTimestampValid (Some (now - 61 * 60000)) d True now"
  by (simp add: isBalanceTimestampValid_def isWithinDuration_def getEndOfDay_def
      setUTCHours_def ONE_HOUR_MS_def MS_PER_DAY_def toISODateString_examples)

section \<open>Rate limiter: retry discipline\<close>

lemma timeout_events_Suc:
  "timeout_events (Suc n) =
     [Acquire DEFAULT_RETRY_TIMEOUT, Backoff DEFAULT_RETRY_DELAY] @ timeout_events n"
  by (simp add: timeout_events_def)



lemma execute_acquired:
  assumes "limiters networkId = Some l" and "acquire a = Removed True"
    and "fst (request s) \<noteq> Inl (Error ''Rate limit timeout'')"
  shows "execute limiters networkId acquire request a s evs =
         Some \<lparr>outcome = fst (request s), final = snd (request s), acquisitions = a + 1,
               events = evs @ [Acquire DEFAULT_RETRY_TIMEOUT, Invoke]\<rparr>"
  using assms by (subst execute.simps) (auto simp: try_body_def split: sum.splits)






text \<open>
  A value that an execution returns, when the request never throws the timeout
  message, was returned by the one invocation of the request, made after an acquisition
  that removed a token; before it there were \<open>k\<close> retried acquisitions, each followed by
  the backoff.
\<close>

lemma execute_value_events:
  assumes "execute limiters networkId acquire request a s evs = Some r"
  shows "limiters networkId \<noteq> None \<longrightarrow>
         (\<forall>s. fst (request s) \<noteq> Inl (Error ''Rate limit timeout'')) \<longrightarrow>
         (\<forall>v. outcome r = Inr v \<longrightarrow>
            (\<exists>k. request s = (Inr v, final r) \<and> acquire (a + k) = Removed True
                \<and> acquisitions r = a + k + 1
                \<and> events r = evs @ timeout_events k @ [Acquire DEFAULT_RETRY_TIMEOUT, Invoke]))"
proof (rule execute.raw_induct
    [where P = "\<lambda>limiters networkId acquire request a s evs r.
       limiters networkId \<noteq> None \<longrightarrow>
         (\<forall>s. fst (request s) \<noteq> Inl (Error ''Rate limit timeout'')) \<longrightarrow>
         (\<forall>v. outcome r = Inr v \<longrightarrow>
            (\<exists>k. request s = (Inr v, final r) \<and> acquire (a + k) = Removed True
                \<and> acquisitions r = a + k + 1
                \<and> events r = evs @ timeout_events k @ [Acquire DEFAULT_RETRY_TIMEOUT, Invoke]))",
     OF _ assms])
  fix exec :: "(int \<rightharpoonup> rate_limiter) \<Rightarrow> int \<Rightarrow> (nat \<Rightarrow> acquisition) \<Rightarrow>
      ('s \<Rightarrow> (js_error + 'a) \<times> 's) \<Rightarrow> nat \<Rightarrow> 's \<Rightarrow> rl_event list \<Rightarrow> ('a, 's) execution option"
    and limiters networkId acquire request a s evs r
  assume IH: "\<And>limiters networkId acquire request a s evs r.
          exec limiters networkId acquire request a s evs = Some r \<Longrightarrow>
          limiters networkId \<noteq> None \<longrightarrow>
         (\<forall>s. fst (request s) \<noteq> Inl (Error ''Rate limit timeout'')) \<longrightarrow>
         (\<forall>v. outcome r = Inr v \<longrightarrow>
            (\<exists>k. request s = (Inr v, final r) \<and> acquire (a + k) = Removed True
                \<and> acquisitions r = a + k + 1
                \<and> events r = evs @ timeout_events k @ [Acquire DEFAULT_RETRY_TIMEOUT, Invoke]))"
    and body: "(case limiters networkId of
        None \<Rightarrow>
          Some \<lparr>outcome = Inl (Error (''No rate limiter found for network '' @ string_of_int networkId)),
                final = s, acquisitions = a, events = evs\<rparr>
      | Some limiter \<Rightarrow>
          (case try_body (acquire a) request s of
             (Inr v, s', invoked) \<Rightarrow>
               Some \<lparr>outcome = Inr v, final = s', acquisitions = a + 1,
                     events = evs @ [Acquire DEFAULT_RETRY_TIMEOUT, Invoke]\<rparr>
           | (Inl e, s', invoked) \<Rightarrow>
               (let evs' = evs @ [Acquire DEFAULT_RETRY_TIMEOUT] @ (if invoked then [Invoke] else [])
                in if e = Error ''Rate limit timeout''
                   then exec limiters networkId acquire request (a + 1) s'
                          (evs' @ [Backoff DEFAULT_RETRY_DELAY])
                   else Some \<lparr>outcome = Inl e, final = s', acquisitions = a + 1, events = evs'\<rparr>))) = Some r"
  show "limiters networkId \<noteq> None \<longrightarrow>
         (\<forall>s. fst (request s) \<noteq> Inl (Error ''Rate limit timeout'')) \<longrightarrow>
         (\<forall>v. outcome r = Inr v \<longrightarrow>
            (\<exists>k. request s = (Inr v, final r) \<and> acquire (a + k) = Removed True
                \<and> acquisitions r = a + k + 1
                \<and> events r = evs @ timeout_events k @ [Acquire DEFAULT_RETRY_TIMEOUT, Invoke]))"
  proof (intro impI allI)
    fix v
    assume l: "limiters networkId \<noteq> None"
      and ne: "\<forall>s. fst (request s) \<noteq> Inl (Error ''Rate limit timeout'')"
      and v: "outcome r = Inr v"
    from ne have ne_s: "fst (request s) \<noteq> Inl (Error ''Rate limit timeout'')"
      by blast
    show "\<exists>k. request s = (Inr v, final r) \<and> acquire (a + k) = Removed True
                \<and> acquisitions r = a + k + 1
                \<and> events r = evs @ timeout_events k @ [Acquire DEFAULT_RETRY_TIMEOUT, Invoke]"
    proof (cases "acquire a = TimedOut \<or> acquire a = RemoveFailed (Error ''Rate limit timeout'')")
      case True
      with body l have "exec limiters networkId acquire request (a + 1) s
          (evs @ [Acquire DEFAULT_RETRY_TIMEOUT, Backoff DEFAULT_RETRY_DELAY]) = Some r"
        by (auto simp: try_body_def)
      from IH [OF this] l ne v obtain k where
        k: "request s = (Inr v, final r)" "acquire (a + 1 + k) = Removed True"
          "acquisitions r = a + 1 + k + 1"
          "events r = (evs @ [Acquire DEFAULT_RETRY_TIMEOUT, Backoff DEFAULT_RETRY_DELAY])
             @ timeout_events k @ [Acquire DEFAULT_RETRY_TIMEOUT, Invoke]"
        by blast
      then show ?thesis
        by (intro exI [of _ "Suc k"]) (simp add: timeout_events_Suc)
    next
      case False
      with body l ne_s v
      have "request s = (Inr v, final r) \<and> acquire a = Removed True
            \<and> acquisitions r = a + 1
            \<and> events r = evs @ [Acquire DEFAULT_RETRY_TIMEOUT, Invoke]"
        by (cases "acquire a"; cases "request s")
          (auto simp: try_body_def Let_def split: sum.splits if_splits)
      then show ?thesis
        by (intro exI [of _ 0]) (simp add: timeout_events_def)
    qed
  qed
qed

lemma RateLimiterManager_fold_dom:
  "dom (fold (\<lambda>networkId limiters.
             limiters(networkId \<mapsto>
               \<lparr>tokensPerInterval = getRateLimit networkId, fireImmediately = True\<rparr>))
          networkIds m) = set networkIds \<union> dom m"
  by (induction networkIds arbitrary: m) auto

lemma RateLimiterManager_dom: "dom (RateLimiterManager networkIds) = set networkIds"
  by (simp add: RateLimiterManager_def RateLimiterManager_fold_dom)




text \<open>
  C10. For a network id that is not in the list given to the constructor, \<open>execute\<close>
  throws \<open>No rate limiter found for network <id>\<close>, without acquiring a token and
  without invoking the operation (no event, the state untouched).
\<close>

theorem execute_unknown_network:
  assumes "networkId \<notin> set networkIds"
  shows "execute (RateLimiterManager networkIds) networkId acquire request a s [] =
         Some \<lparr>outcome = Inl (Error (''No rate limiter found for network '' @ string_of_int networkId)),
               final = s, acquisitions = a, events = []\<rparr>"
proof -
  have "RateLimiterManager networkIds networkId = None"
    using assms RateLimiterManager_dom [of networkIds] by blast
  then show ?thesis
    by (subst execute.simps) simp
qed

theorem execute_unknown_network_witness:
  "(5::int) \<notin> set [1, 137]
   \<and> execute (RateLimiterManager [1, 137]) 5 always_acquired reverting_request 0 0 [] =
       Some \<lparr>outcome = Inl (Error ''No rate limiter found for network 5''),
             final = 0, acquisitions = 0, events = []\<rparr>"
  using execute_unknown_network [of 5 "[1, 137]" always_acquired reverting_request 0 0]
  by (simp add: string_of_int_def digit_char_def)

section \<open>Block resolution never overshoots\<close>

lemma walk_backwards_consistent:
  assumes "walk_backwards c T bn ts log = (Inr r, log')" and "chain_timestamp c bn = Inr ts"
  shows "chain_timestamp c (blockNumber r) = Inr (blockTimestamp r)"
  using assms
proof (induction c T bn ts log rule: walk_backwards.induct)
  case (1 c T bn ts log)
  show ?case
  proof (cases "ts > T \<and> bn > 0")
    case True
    with "1.prems"(1) obtain ts' log1 where
      g: "getBlock c (bn - 1) log = (Inr ts', log1)"
      and w: "walk_backwards c T (bn - 1) ts' log1 = (Inr r, log')"
      by (subst (asm) walk_backwards.simps) (auto split: prod.splits sum.splits)
    from g have "chain_timestamp c (bn - 1) = Inr ts'" by (simp add: getBlock_def)
    from "1.IH" [OF True g [symmetric] refl w this] show ?thesis .
  next
    case False
    with "1.prems" show ?thesis by (subst (asm) walk_backwards.simps) auto
  qed
qed

lemma walk_backwards_finds:
  assumes "walk_backwards c T bn ts log = (Inr r, log')" and "chain_timestamp c bn = Inr ts"
    and "0 \<le> b" and "b \<le> bn" and "chain_timestamp c b = Inr t" and "t \<le> T"
  shows "blockTimestamp r \<le> T"
  using assms
proof (induction c T bn ts log rule: walk_backwards.induct)
  case (1 c T bn ts log)
  show ?case
  proof (cases "ts > T \<and> bn > 0")
    case True
    with "1.prems"(1) obtain ts' log1 where
      g: "getBlock c (bn - 1) log = (Inr ts', log1)"
      and w: "walk_backwards c T (bn - 1) ts' log1 = (Inr r, log')"
      by (subst (asm) walk_backwards.simps) (auto split: prod.splits sum.splits)
    from g have c': "chain_timestamp c (bn - 1) = Inr ts'" by (simp add: getBlock_def)
    have "b \<noteq> bn" using True "1.prems"(2,5,6) by auto
    with "1.prems"(4) have "b \<le> bn - 1" by simp
    from "1.IH" [OF True g [symmetric] refl w c' "1.prems"(3) this "1.prems"(5,6)] show ?thesis .
  next
    case False
    with "1.prems"(1) have r: "r = \<lparr>blockNumber = bn, blockTimestamp = ts\<rparr>"
      by (subst (asm) walk_backwards.simps) auto
    show ?thesis
    proof (cases "ts \<le> T")
      case True
      with r show ?thesis by simp
    next
      case False
      with \<open>\<not> (ts > T \<and> bn > 0)\<close> have "bn \<le> 0" by simp
      with "1.prems"(3,4) have "b = bn" by simp
      with "1.prems"(2,5,6) False show ?thesis by simp
    qed
  qed
qed

lemma linear_search_inv:
  assumes "linear_search c T direction n s log = (Inr s', log')" and "search_inv c T s"
  shows "search_inv c T s'"
  using assms
proof (induction n arbitrary: s log)
  case 0
  then show ?case by simp
next
  case (Suc n)
  from Suc.prems show ?case
    by (auto simp: Let_def getBlock_def search_inv_def split: sum.splits if_splits
        dest!: Suc.IH [unfolded search_inv_def])
qed

text \<open>
  C1. Let the latest block be \<open>currentBlock\<close> with timestamp \<open>currentTimestamp\<close>, and
  the target \<open>T\<close> be at most that timestamp. If \<open>findBlockNumberForTimestamp\<close> returns a
  block, and some block of the search window has a timestamp at most \<open>T\<close>, then the
  returned timestamp is at most \<open>T\<close>, and it is the timestamp of the returned block.
\<close>

theorem findBlockNumberForTimestamp_monotonic:
  assumes head: "chain_head c = Inr currentBlock"
    and cur: "chain_timestamp c currentBlock = Inr currentTimestamp"
    and le: "T \<le> currentTimestamp"
    and res: "findBlockNumberForTimestamp c T networkId log = (Inr r, log')"
    and win: "in_search_window c currentBlock currentTimestamp T networkId b"
    and b: "chain_timestamp c b = Inr t" "t \<le> T"
  shows "blockTimestamp r \<le> T \<and> chain_timestamp c (blockNumber r) = Inr (blockTimestamp r)"
proof -
  define est where "est = estimatedBlock currentBlock currentTimestamp T networkId"
  from win obtain ets where ets: "chain_timestamp c est = Inr ets"
    by (auto simp: in_search_window_def est_def Let_def split: sum.splits)
  show ?thesis
  proof (cases "ets > T")
    case True
    with res head cur le ets
    have w: "walk_backwards c T est ets (log @ [GetBlockNumber, GetBlock currentBlock, GetBlock est]) = (Inr r, log')"
      by (simp add: findBlockNumberForTimestamp_def getBlockNumber_def getBlock_def est_def [symmetric])
    from win True ets have "0 \<le> b" "b \<le> est"
      by (auto simp: in_search_window_def est_def [symmetric])
    from walk_backwards_finds [OF w ets this b] walk_backwards_consistent [OF w ets]
    show ?thesis by simp
  next
    case False
    show ?thesis
    proof (cases "\<bar>ets - T\<bar> \<le> 3600")
      case True
      with res head cur le ets False have "r = \<lparr>blockNumber = est, blockTimestamp = ets\<rparr>"
        by (simp add: findBlockNumberForTimestamp_def getBlockNumber_def getBlock_def est_def [symmetric])
      with False ets show ?thesis by simp
    next
      case far: False
      let ?s0 = "\<lparr>currentBlockNumber = est, closestBlock = est, closestDiff = ets - T,
                  lastBlockBeforeOrAtTarget = est, lastBlockBeforeOrAtTargetTimestamp = ets\<rparr>"
      let ?log3 = "log @ [GetBlockNumber, GetBlock currentBlock, GetBlock est]"
      from res head cur le ets False far
      obtain s log4 fts where
        ls: "linear_search c T 1 100 ?s0 ?log3 = (Inr s, log4)"
        and fin: "chain_timestamp c (closestBlock s) = Inr fts"
        and r: "r = (if fts > T
                     then \<lparr>blockNumber = lastBlockBeforeOrAtTarget s,
                           blockTimestamp = lastBlockBeforeOrAtTargetTimestamp s\<rparr>
                     else \<lparr>blockNumber = closestBlock s, blockTimestamp = fts\<rparr>)"
        by (auto simp: findBlockNumberForTimestamp_def getBlockNumber_def getBlock_def
            est_def [symmetric] split: prod.splits sum.splits if_splits)
      have "search_inv c T ?s0"
        using False ets by (simp add: search_inv_def)
      from linear_search_inv [OF ls this] have "search_inv c T s" .
      with r fin show ?thesis
        by (auto simp: search_inv_def)
    qed
  qed
qed

lemma fast_chain_example:
  "findBlockNumberForTimestamp fast_chain 1700000980 1 [] =
     (Inr \<lparr>blockNumber = 89, blockTimestamp = 1700000979\<rparr>,
      [GetBlockNumber, GetBlock 100, GetBlock 90, GetBlock 89])"
  by (simp add: findBlockNumberForTimestamp_def getBlockNumber_def getBlock_def fast_chain_def
      estimatedBlock_def NETWORK_BLOCK_TIMES_def walk_backwards.simps)

lemma halted_chain_example:
  "findBlockNumberForTimestamp halted_chain 1700010600 1 [] =
     (Inr \<lparr>blockNumber = 50, blockTimestamp = 1700000600\<rparr>,
      [GetBlockNumber, GetBlock 100, GetBlock 50, GetBlock 51, GetBlock 51])"
  by (simp add: findBlockNumberForTimestamp_def getBlockNumber_def getBlock_def halted_chain_def
      estimatedBlock_def NETWORK_BLOCK_TIMES_def numeral_eq_Suc)

theorem findBlockNumberForTimestamp_monotonic_witness:
  "chain_head fast_chain = Inr 100
   \<and> chain_timestamp fast_chain 100 = Inr 1700001100
   \<and> (1700000980::int) \<le> 1700001100
   \<and> findBlockNumberForTimestamp fast_chain 1700000980 1 [] =
       (Inr \<lparr>blockNumber = 89, blockTimestamp = 1700000979\<rparr>,
        [GetBlockNumber, GetBlock 100, GetBlock 90, GetBlock 89])
   \<and> in_search_window fast_chain 100 1700001100 1700000980 1 42
   \<and> chain_timestamp fast_chain 42 = Inr 1700000462
   \<and> (1700000462::int) \<le> 1700000980
   \<and> blockTimestamp \<lparr>blockNumber = 89, blockTimestamp = 1700000979\<rparr> \<le> 1700000980
   \<and> chain_timestamp fast_chain 89 = Inr 1700000979"
proof -
  have h: "chain_head fast_chain = Inr 100" by (simp add: fast_chain_def)
  have c: "chain_timestamp fast_chain 100 = Inr 1700001100" by (simp add: fast_chain_def)
  have w: "in_search_window fast_chain 100 1700001100 1700000980 1 42"
    by (simp add: in_search_window_def estimatedBlock_def NETWORK_BLOCK_TIMES_def fast_chain_def)
  have b: "chain_timestamp fast_chain 42 = Inr 1700000462" by (simp add: fast_chain_def)
  from findBlockNumberForTimestamp_monotonic [OF h c _ fast_chain_example w b]
  show ?thesis using h c w b fast_chain_example by simp
qed

section \<open>Batched balance reads: request order and result alignment\<close>

lemma collect_map_Inr:
  assumes "\<And>x. x \<in> set xs \<Longrightarrow> g x = Inr (f x)"
  shows "collect (map g xs) = Inr (map f xs)"
  using assms by (induction xs) auto

lemma zip_upt_nth: "zip [0..<length xs] xs = map (\<lambda>i. (i, xs ! i)) [0..<length xs]"
  by (rule nth_equalityI) simp_all

lemma standardizedWallets_valid:
  assumes "\<And>w. w \<in> set wallets \<Longrightarrow> isAddress (w_address w)"
  shows "standardizedWallets isAddress wallets =
         Inr (map (\<lambda>w. w\<lparr>w_address := toLowerCase (w_address w)\<rparr>) wallets)"
  unfolding standardizedWallets_def
  by (rule collect_map_Inr) (simp add: standardizeAddress_def assms)

lemma length_allCalls:
  "length (allCalls addrs tokens) = length addrs + length tokens * length addrs"
  by (induction tokens) (simp_all add: allCalls_def)

lemma concat_map_nth:
  assumes "j < length ts" and "i < length ws"
  shows "concat (map (\<lambda>t. map (f t) ws) ts) ! (j * length ws + i) = f (ts ! j) (ws ! i)"
  using assms
proof (induction ts arbitrary: j)
  case Nil
  then show ?case by simp
next
  case (Cons t ts)
  show ?case
  proof (cases j)
    case 0
    with Cons.prems show ?thesis by (simp add: nth_append)
  next
    case (Suc k)
    with Cons.prems have "k < length ts" by simp
    from Cons.IH [OF this Cons.prems(2)] Suc show ?thesis
      by (simp add: nth_append)
  qed
qed

lemma allCalls_native:
  assumes "i < length addrs"
  shows "allCalls addrs tokens ! i = native_call (addrs ! i)"
  using assms by (simp add: allCalls_def nth_append)

lemma allCalls_token:
  assumes "j < length tokens" and "i < length addrs"
  shows "allCalls addrs tokens ! (length addrs + j * length addrs + i) =
         token_call (tokens ! j) (addrs ! i)"
  using concat_map_nth [OF assms, of token_call]
  by (simp add: allCalls_def nth_append add.assoc)

text \<open>The balances decoded from an order-aligned result list.\<close>

lemma index_bound:
  assumes "j < (m::nat)" and "i < n"
  shows "j * n + i < m * n"
proof -
  have "j * n + i < j * n + n" using assms(2) by simp
  also have "\<dots> = Suc j * n" by simp
  also have "\<dots> \<le> m * n" using assms(1) by (intro mult_le_mono1) simp
  finally show ?thesis .
qed

lemma walletTokenBalances_decoded:
  assumes "length tokens * n \<le> length rs" and "i < n"
  shows "walletTokenBalances tokens rs n i =
         Inr (map (\<lambda>j. \<lparr>tb_address = tok_address (tokens ! j), tb_symbol = tok_symbol (tokens ! j),
                        tb_balance = result_text (rs ! (j * n + i)),
                        tb_decimals = tok_decimals (tokens ! j)\<rparr>) [0..<length tokens])"
proof -
  have "collect (map (\<lambda>(tokenIndex, t).
                 case balance_text rs (tokenIndex * n + i) of
                   Inl e \<Rightarrow> Inl e
                 | Inr b \<Rightarrow> Inr \<lparr>tb_address = tok_address t, tb_symbol = tok_symbol t,
                                  tb_balance = b, tb_decimals = tok_decimals t\<rparr>)
               (map (\<lambda>j. (j, tokens ! j)) [0..<length tokens]))
        = Inr (map (\<lambda>(j, t). \<lparr>tb_address = tok_address t, tb_symbol = tok_symbol t,
                        tb_balance = result_text (rs ! (j * n + i)),
                        tb_decimals = tok_decimals t\<rparr>) (map (\<lambda>j. (j, tokens ! j)) [0..<length tokens]))"
  proof (rule collect_map_Inr)
    fix x assume "x \<in> set (map (\<lambda>j. (j, tokens ! j)) [0..<length tokens])"
    then obtain j where j: "j < length tokens" and x: "x = (j, tokens ! j)" by auto
    from index_bound [OF j assms(2)] assms(1) have "j * n + i < length rs" by simp
    then show "(case x of (tokenIndex, t) \<Rightarrow>
            case balance_text rs (tokenIndex * n + i) of
              Inl e \<Rightarrow> Inl e
            | Inr b \<Rightarrow> Inr \<lparr>tb_address = tok_address t, tb_symbol = tok_symbol t,
                             tb_balance = b, tb_decimals = tok_decimals t\<rparr>) =
          Inr (case x of (j, t) \<Rightarrow> \<lparr>tb_address = tok_address t, tb_symbol = tok_symbol t,
                        tb_balance = result_text (rs ! (j * n + i)),
                        tb_decimals = tok_decimals t\<rparr>)"
      by (simp add: x balance_text_def)
  qed
  then show ?thesis
    by (simp add: walletTokenBalances_def zip_upt_nth comp_def)
qed

lemma getWalletsBalances_decoded:
  assumes valid: "\<And>w. w \<in> set wallets \<Longrightarrow> isAddress (w_address w)"
    and mc: "chain_multicall c
               (allCalls (map (\<lambda>w. toLowerCase (w_address w)) wallets) (net_tokens net)) n
             = Inr results"
    and len: "length wallets + length (net_tokens net) * length wallets \<le> length results"
  shows "getWalletsBalances isAddress c wallets net n log =
         (Inr (map (decoded_balance wallets net results) [0..<length wallets]),
          log @ [Multicall (allCalls (map (\<lambda>w. toLowerCase (w_address w)) wallets)
                              (net_tokens net)) n])"
proof -
  let ?ws = "map (\<lambda>w. w\<lparr>w_address := toLowerCase (w_address w)\<rparr>) wallets"
  have addrs: "map w_address ?ws = map (\<lambda>w. toLowerCase (w_address w)) wallets"
    by simp
  have dec: "collect (map (decode_wallet net results (length ?ws))
                (map (\<lambda>i. (i, ?ws ! i)) [0..<length ?ws]))
        = Inr (map (\<lambda>x. decoded_balance wallets net results (fst x))
                (map (\<lambda>i. (i, ?ws ! i)) [0..<length ?ws]))"
  proof (rule collect_map_Inr)
    fix x assume "x \<in> set (map (\<lambda>i. (i, ?ws ! i)) [0..<length ?ws])"
    then obtain i where i: "i < length wallets" and x: "x = (i, ?ws ! i)" by auto
    have tl: "length (net_tokens net) * length wallets \<le> length (drop (length wallets) results)"
      using len by simp
    have ix: "\<And>j. j < length (net_tokens net) \<Longrightarrow>
                 drop (length wallets) results ! (j * length wallets + i)
                 = results ! (length wallets + j * length wallets + i)"
      using len by (simp add: add.assoc)
    show "decode_wallet net results (length ?ws) x = Inr (decoded_balance wallets net results (fst x))"
      using i len walletTokenBalances_decoded [OF tl i]
      by (simp add: x decode_wallet_def balance_text_def decoded_balance_def add.assoc)
  qed
  have std: "standardizedWallets isAddress wallets = Inr ?ws"
    using valid by (rule standardizedWallets_valid)
  have z: "zip [0..<length wallets] ?ws = map (\<lambda>i. (i, ?ws ! i)) [0..<length wallets]"
    using zip_upt_nth [of ?ws] by simp
  show ?thesis
    using mc dec
    by (simp add: getWalletsBalances_def std multicall_def z comp_def)
qed

text \<open>
  C7. For wallets with valid addresses, whose multicall answers a result list that covers
  the request list, \<open>getWalletsBalances\<close> makes exactly one multicall. Its call list has
  \<open>|wallets| + |tokens| * |wallets|\<close> calls: at index \<open>i\<close> the native-balance read of
  wallet \<open>i\<close>, which is \<open>getEthBalance\<close> on the Multicall3 contract with the lower-cased
  address of wallet \<open>i\<close> as its one argument; at index \<open>|wallets| + j * |wallets| + i\<close>
  the read of token \<open>j\<close> for wallet \<open>i\<close>, which is \<open>balanceOf\<close> on the contract of
  token \<open>j\<close> with the same argument. The balances returned are one per wallet, in order; the native
  balance of wallet \<open>i\<close> is the text of result \<open>i\<close>, its balance of token \<open>j\<close> the
  text of result \<open>|wallets| + j * |wallets| + i\<close>.
\<close>

theorem getWalletsBalances_order_alignment:
  assumes valid: "\<And>w. w \<in> set wallets \<Longrightarrow> isAddress (w_address w)"
    and mc: "chain_multicall c
               (allCalls (map (\<lambda>w. toLowerCase (w_address w)) wallets) (net_tokens net)) n
             = Inr results"
    and len: "length wallets + length (net_tokens net) * length wallets \<le> length results"
  shows "\<exists>balances calls.
           calls = allCalls (map (\<lambda>w. toLowerCase (w_address w)) wallets) (net_tokens net)
         \<and> getWalletsBalances isAddress c wallets net n log = (Inr balances, log @ [Multicall calls n])
         \<and> length calls = length wallets + length (net_tokens net) * length wallets
         \<and> length balances = length wallets
         \<and> (\<forall>i<length wallets.
               calls ! i = \<lparr>address = ''0xcA11bde05977b3631167028862bE2a173976CA11'',
                          functionName = ''getEthBalance'', args = [toLowerCase (w_address (wallets ! i))]\<rparr>
             \<and> wb_address (balances ! i) = toLowerCase (w_address (wallets ! i))
             \<and> wb_native_balance (balances ! i) = result_text (results ! i)
             \<and> length (wb_tokens (balances ! i)) = length (net_tokens net)
             \<and> (\<forall>j<length (net_tokens net).
                   calls ! (length wallets + j * length wallets + i)
                     = \<lparr>address = tok_address (net_tokens net ! j), functionName = ''balanceOf'',
                          args = [toLowerCase (w_address (wallets ! i))]\<rparr>
                 \<and> tb_address (wb_tokens (balances ! i) ! j) = tok_address (net_tokens net ! j)
                 \<and> tb_balance (wb_tokens (balances ! i) ! j)
                     = result_text (results ! (length wallets + j * length wallets + i))))"
proof -
  let ?addrs = "map (\<lambda>w. toLowerCase (w_address w)) wallets"
  let ?calls = "allCalls ?addrs (net_tokens net)"
  let ?balances = "map (decoded_balance wallets net results) [0..<length wallets]"
  have run: "getWalletsBalances isAddress c wallets net n log = (Inr ?balances, log @ [Multicall ?calls n])"
    using valid mc len by (rule getWalletsBalances_decoded)
  have lc: "length ?calls = length wallets + length (net_tokens net) * length wallets"
    by (simp add: length_allCalls)
  have per: "\<forall>i<length wallets.
               ?calls ! i = native_call (toLowerCase (w_address (wallets ! i)))
             \<and> wb_address (?balances ! i) = toLowerCase (w_address (wallets ! i))
             \<and> wb_native_balance (?balances ! i) = result_text (results ! i)
             \<and> length (wb_tokens (?balances ! i)) = length (net_tokens net)
             \<and> (\<forall>j<length (net_tokens net).
                   ?calls ! (length wallets + j * length wallets + i)
                     = token_call (net_tokens net ! j) (toLowerCase (w_address (wallets ! i)))
                 \<and> tb_address (wb_tokens (?balances ! i) ! j) = tok_address (net_tokens net ! j)
                 \<and> tb_balance (wb_tokens (?balances ! i) ! j)
                     = result_text (results ! (length wallets + j * length wallets + i)))"
  proof (intro allI impI)
    fix i assume i: "i < length wallets"
    have nat_call: "?calls ! i = native_call (toLowerCase (w_address (wallets ! i)))"
      using allCalls_native [of i ?addrs "net_tokens net"] i by simp
    have tok: "\<forall>j<length (net_tokens net).
                   ?calls ! (length wallets + j * length wallets + i)
                     = token_call (net_tokens net ! j) (toLowerCase (w_address (wallets ! i)))
                 \<and> tb_address (wb_tokens (?balances ! i) ! j) = tok_address (net_tokens net ! j)
                 \<and> tb_balance (wb_tokens (?balances ! i) ! j)
                     = result_text (results ! (length wallets + j * length wallets + i))"
    proof (intro allI impI)
      fix j assume j: "j < length (net_tokens net)"
      have "?calls ! (length wallets + j * length wallets + i)
              = token_call (net_tokens net ! j) (toLowerCase (w_address (wallets ! i)))"
        using allCalls_token [of j "net_tokens net" i ?addrs] i j by simp
      then show "?calls ! (length wallets + j * length wallets + i)
                     = token_call (net_tokens net ! j) (toLowerCase (w_address (wallets ! i)))
                 \<and> tb_address (wb_tokens (?balances ! i) ! j) = tok_address (net_tokens net ! j)
                 \<and> tb_balance (wb_tokens (?balances ! i) ! j)
                     = result_text (results ! (length wallets + j * length wallets + i))"
        using i j by (simp add: decoded_balance_def)
    qed
    show "?calls ! i = native_call (toLowerCase (w_address (wallets ! i)))
             \<and> wb_address (?balances ! i) = toLowerCase (w_address (wallets ! i))
             \<and> wb_native_balance (?balances ! i) = result_text (results ! i)
             \<and> length (wb_tokens (?balances ! i)) = length (net_tokens net)
             \<and> (\<forall>j<length (net_tokens net).
                   ?calls ! (length wallets + j * length wallets + i)
                     = token_call (net_tokens net ! j) (toLowerCase (w_address (wallets ! i)))
                 \<and> tb_address (wb_tokens (?balances ! i) ! j) = tok_address (net_tokens net ! j)
                 \<and> tb_balance (wb_tokens (?balances ! i) ! j)
                     = result_text (results ! (length wallets + j * length wallets + i)))"
      using nat_call tok i by (simp add: decoded_balance_def)
  qed
  from run lc per show ?thesis
    by (intro exI [of _ ?balances] exI [of _ ?calls])
       (simp add: native_call_def token_call_def MULTICALL3_ADDRESS_def)
qed

lemma string_of_nat_nonempty: "string_of_nat n \<noteq> []"
  by (subst string_of_nat.simps) simp

lemma string_of_int_nonempty: "string_of_int i \<noteq> []"
  by (simp add: string_of_int_def string_of_nat_nonempty)

text \<open>The text of a result with a value is its decimal rendering, which is never empty.\<close>

lemma result_text_Some: "result_text (Some v) = string_of_int v"
  by (simp add: result_text_def string_of_int_nonempty)

theorem getWalletsBalances_order_alignment_witness:
  "list_all hex_address (map w_address example_wallets)
   \<and> chain_multicall example_client
       (allCalls (map (\<lambda>w. toLowerCase (w_address w)) example_wallets)
          (net_tokens example_network)) 100 = Inr example_results
   \<and> length example_wallets + length (net_tokens example_network) * length example_wallets
       \<le> length example_results
   \<and> (\<exists>balances calls.
         getWalletsBalances hex_address example_client example_wallets example_network 100 []
           = (Inr balances, [Multicall calls 100])
       \<and> length calls = 6
       \<and> calls ! 1 = \<lparr>address = ''0xcA11bde05977b3631167028862bE2a173976CA11'',
                          functionName = ''getEthBalance'', args = [''0x5aaeb6053f3e94c9b9a09f33669435e7ef1beaed'']\<rparr>
       \<and> calls ! 4 = \<lparr>address = ''0xC02aaA39b223FE8D0A0e5C4F27eAD9083C756Cc2'',
                          functionName = ''balanceOf'', args = [''0x1234567890123456789012345678901234567890'']\<rparr>
       \<and> wb_native_balance (balances ! 0) = ''5''
       \<and> wb_native_balance (balances ! 1) = ''0''
       \<and> tb_balance (wb_tokens (balances ! 0) ! 1) = ''0''
       \<and> tb_balance (wb_tokens (balances ! 1) ! 1) = ''10'')"
proof -
  have valid: "\<And>w. w \<in> set example_wallets \<Longrightarrow> hex_address (w_address w)"
    by (auto simp: example_wallets_def hex_address_def)
  have mc: "chain_multicall example_client
       (allCalls (map (\<lambda>w. toLowerCase (w_address w)) example_wallets)
          (net_tokens example_network)) 100 = Inr example_results"
    by (simp add: example_client_def)
  have len: "length example_wallets + length (net_tokens example_network) * length example_wallets
       \<le> length example_results"
    by (simp add: example_wallets_def example_network_def example_results_def)
  from getWalletsBalances_order_alignment [of example_wallets hex_address example_client
      example_network 100 example_results "[]", OF valid mc len]
  obtain balances calls where
    run: "getWalletsBalances hex_address example_client example_wallets example_network 100 []
           = (Inr balances, [] @ [Multicall calls 100])"
    and lc: "length calls = length example_wallets
               + length (net_tokens example_network) * length example_wallets"
    and per: "\<forall>i<length example_wallets.
               calls ! i = \<lparr>address = ''0xcA11bde05977b3631167028862bE2a173976CA11'',
                          functionName = ''getEthBalance'', args = [toLowerCase (w_address (example_wallets ! i))]\<rparr>
             \<and> wb_address (balances ! i) = toLowerCase (w_address (example_wallets ! i))
             \<and> wb_native_balance (balances ! i) = result_text (example_results ! i)
             \<and> length (wb_tokens (balances ! i)) = length (net_tokens example_network)
             \<and> (\<forall>j<length (net_tokens example_network).
                   calls ! (length example_wallets + j * length example_wallets + i)
                     = \<lparr>address = tok_address (net_tokens example_network ! j), functionName = ''balanceOf'',
                          args = [toLowerCase (w_address (example_wallets ! i))]\<rparr>
                 \<and> tb_address (wb_tokens (balances ! i) ! j)
                     = tok_address (net_tokens example_network ! j)
                 \<and> tb_balance (wb_tokens (balances ! i) ! j)
                     = result_text
                         (example_results ! (length example_wallets + j * length example_wallets + i)))"
    by blast
  have n: "length example_wallets = 2" "length (net_tokens example_network) = 2"
    by (simp_all add: example_wallets_def example_network_def)
  have i0: "0 < length example_wallets" and i1: "1 < length example_wallets"
    and j1: "1 < length (net_tokens example_network)"
    by (simp_all add: n)
  note w0 = per [rule_format, OF i0] and w1 = per [rule_format, OF i1]
  from w0 have p0: "wb_native_balance (balances ! 0) = result_text (example_results ! 0)"
    by simp
  from w0 have t0: "\<forall>j<length (net_tokens example_network).
                   calls ! (length example_wallets + j * length example_wallets + 0)
                     = \<lparr>address = tok_address (net_tokens example_network ! j), functionName = ''balanceOf'',
                          args = [toLowerCase (w_address (example_wallets ! 0))]\<rparr>
                 \<and> tb_address (wb_tokens (balances ! 0) ! j)
                     = tok_address (net_tokens example_network ! j)
                 \<and> tb_balance (wb_tokens (balances ! 0) ! j)
                     = result_text
                         (example_results ! (length example_wallets + j * length example_wallets + 0))"
    by simp
  from t0 [rule_format, OF j1] n
  have p01: "calls ! 4 = \<lparr>address = tok_address (net_tokens example_network ! 1), functionName = ''balanceOf'',
                          args = [toLowerCase (w_address (example_wallets ! 0))]\<rparr>"
    and b01: "tb_balance (wb_tokens (balances ! 0) ! 1) = result_text (example_results ! 4)"
    by simp_all
  from w1 have p1: "calls ! 1 = \<lparr>address = ''0xcA11bde05977b3631167028862bE2a173976CA11'',
                          functionName = ''getEthBalance'', args = [toLowerCase (w_address (example_wallets ! 1))]\<rparr>"
    and p1n: "wb_native_balance (balances ! 1) = result_text (example_results ! 1)"
    by simp_all
  from w1 have t1: "\<forall>j<length (net_tokens example_network).
                   calls ! (length example_wallets + j * length example_wallets + 1)
                     = \<lparr>address = tok_address (net_tokens example_network ! j), functionName = ''balanceOf'',
                          args = [toLowerCase (w_address (example_wallets ! 1))]\<rparr>
                 \<and> tb_address (wb_tokens (balances ! 1) ! j)
                     = tok_address (net_tokens example_network ! j)
                 \<and> tb_balance (wb_tokens (balances ! 1) ! j)
                     = result_text
                         (example_results ! (length example_wallets + j * length example_wallets + 1))"
    by simp
  from t1 [rule_format, OF j1] n
  have b11: "tb_balance (wb_tokens (balances ! 1) ! 1) = result_text (example_results ! 5)"
    by simp
  have "calls ! 1 = \<lparr>address = ''0xcA11bde05977b3631167028862bE2a173976CA11'',
                          functionName = ''getEthBalance'', args = [''0x5aaeb6053f3e94c9b9a09f33669435e7ef1beaed'']\<rparr>"
    using p1 by (simp add: example_wallets_def toLowerCase_def)
  moreover have "calls ! 4 = \<lparr>address = ''0xC02aaA39b223FE8D0A0e5C4F27eAD9083C756Cc2'',
                          functionName = ''balanceOf'', args = [''0x1234567890123456789012345678901234567890'']\<rparr>"
    using p01 by (simp add: example_wallets_def example_network_def toLowerCase_def)
  moreover have "wb_native_balance (balances ! 0) = ''5''"
    using p0 by (simp add: example_results_def result_text_def string_of_int_def digit_char_def)
  moreover have "wb_native_balance (balances ! 1) = ''0''"
    using p1n by (simp add: example_results_def result_text_def)
  moreover have "tb_balance (wb_tokens (balances ! 0) ! 1) = ''0''"
    using b01 by (simp add: example_results_def result_text_def)
  moreover have "tb_balance (wb_tokens (balances ! 1) ! 1) = ''10''"
    using b11 by (simp add: example_results_def result_text_def string_of_int_def digit_char_def)
  moreover have "list_all hex_address (map w_address example_wallets)"
    by (simp add: example_wallets_def hex_address_def)
  ultimately show ?thesis
    using run lc n mc len by (intro conjI exI [of _ balances] exI [of _ calls]) simp_all
qed

text \<open>
  C8. For wallets with valid addresses, whose multicall answers a result list that covers
  the request list, \<open>getWalletsBalances\<close> returns balances and no error, and wherever the
  result at a position of the list has no value (a missing or reverted read), the native
  or token balance read from that position is the string \<open>0\<close>.
\<close>

theorem getWalletsBalances_missing_result_zero:
  assumes valid: "\<And>w. w \<in> set wallets \<Longrightarrow> isAddress (w_address w)"
    and mc: "chain_multicall c
               (allCalls (map (\<lambda>w. toLowerCase (w_address w)) wallets) (net_tokens net)) n
             = Inr results"
    and len: "length wallets + length (net_tokens net) * length wallets \<le> length results"
  shows "\<exists>balances.
           fst (getWalletsBalances isAddress c wallets net n log) = Inr balances
         \<and> length balances = length wallets
         \<and> (\<forall>i<length wallets.
               (results ! i = None \<longrightarrow> wb_native_balance (balances ! i) = ''0'')
             \<and> length (wb_tokens (balances ! i)) = length (net_tokens net)
             \<and> (\<forall>j<length (net_tokens net).
                   results ! (length wallets + j * length wallets + i) = None
                   \<longrightarrow> tb_balance (wb_tokens (balances ! i) ! j) = ''0''))"
proof -
  let ?balances = "map (decoded_balance wallets net results) [0..<length wallets]"
  have "getWalletsBalances isAddress c wallets net n log =
         (Inr ?balances,
          log @ [Multicall (allCalls (map (\<lambda>w. toLowerCase (w_address w)) wallets)
                              (net_tokens net)) n])"
    using valid mc len by (rule getWalletsBalances_decoded)
  then have "fst (getWalletsBalances isAddress c wallets net n log) = Inr ?balances"
    by simp
  moreover have "\<forall>i<length wallets.
               (results ! i = None \<longrightarrow> wb_native_balance (?balances ! i) = ''0'')
             \<and> length (wb_tokens (?balances ! i)) = length (net_tokens net)
             \<and> (\<forall>j<length (net_tokens net).
                   results ! (length wallets + j * length wallets + i) = None
                   \<longrightarrow> tb_balance (wb_tokens (?balances ! i) ! j) = ''0'')"
    by (simp add: decoded_balance_def result_text_def)
  ultimately show ?thesis
    by (intro exI [of _ ?balances]) simp
qed

theorem getWalletsBalances_missing_result_zero_witness:
  "list_all hex_address (map w_address example_wallets)
   \<and> chain_multicall example_client
       (allCalls (map (\<lambda>w. toLowerCase (w_address w)) example_wallets)
          (net_tokens example_network)) 100 = Inr example_results
   \<and> length example_wallets + length (net_tokens example_network) * length example_wallets
       \<le> length example_results
   \<and> example_results ! 1 = None \<and> example_results ! 4 = None
   \<and> (\<exists>balances.
         fst (getWalletsBalances hex_address example_client example_wallets example_network 100 [])
           = Inr balances
       \<and> length balances = 2
       \<and> wb_native_balance (balances ! 1) = ''0''
       \<and> tb_balance (wb_tokens (balances ! 0) ! 1) = ''0'')"
proof -
  have valid: "\<And>w. w \<in> set example_wallets \<Longrightarrow> hex_address (w_address w)"
    by (auto simp: example_wallets_def hex_address_def)
  have mc: "chain_multicall example_client
       (allCalls (map (\<lambda>w. toLowerCase (w_address w)) example_wallets)
          (net_tokens example_network)) 100 = Inr example_results"
    by (simp add: example_client_def)
  have len: "length example_wallets + length (net_tokens example_network) * length example_wallets
       \<le> length example_results"
    by (simp add: example_wallets_def example_network_def example_results_def)
  have n: "length example_wallets = 2" "length (net_tokens example_network) = 2"
    by (simp_all add: example_wallets_def example_network_def)
  have r: "example_results ! 1 = None" "example_results ! 4 = None"
    by (simp_all add: example_results_def)
  from getWalletsBalances_missing_result_zero [of example_wallets hex_address example_client
      example_network 100 example_results "[]", OF valid mc len]
  obtain balances where
    run: "fst (getWalletsBalances hex_address example_client example_wallets example_network 100 [])
           = Inr balances"
    and lb: "length balances = length example_wallets"
    and per: "\<forall>i<length example_wallets.
               (example_results ! i = None \<longrightarrow> wb_native_balance (balances ! i) = ''0'')
             \<and> length (wb_tokens (balances ! i)) = length (net_tokens example_network)
             \<and> (\<forall>j<length (net_tokens example_network).
                   example_results ! (length example_wallets + j * length example_wallets + i) = None
                   \<longrightarrow> tb_balance (wb_tokens (balances ! i) ! j) = ''0'')"
    by blast
  have i0: "0 < length example_wallets" and i1: "1 < length example_wallets"
    and j1: "1 < length (net_tokens example_network)"
    by (simp_all add: n)
  note w0 = per [rule_format, OF i0] and w1 = per [rule_format, OF i1]
  from w1 r have "wb_native_balance (balances ! 1) = ''0''"
    by simp
  moreover from w0 have t0: "\<forall>j<length (net_tokens example_network).
                   example_results ! (length example_wallets + j * length example_wallets + 0) = None
                   \<longrightarrow> tb_balance (wb_tokens (balances ! 0) ! j) = ''0''"
    by simp
  from t0 [rule_format, OF j1] n r have "tb_balance (wb_tokens (balances ! 0) ! 1) = ''0''"
    by simp
  moreover have "list_all hex_address (map w_address example_wallets)"
    by (simp add: example_wallets_def hex_address_def)
  ultimately show ?thesis
    using run lb n mc len r by (intro conjI exI [of _ balances]) simp_all
qed

section \<open>Upsert: at most one row per key, last write wins\<close>

lemma upsert_keys:
  "set (map row_key (upsert new rows)) = insert (row_key new) (set (map row_key rows))"
  by (induction rows) (auto simp: row_key_def)

lemma map_row_key_upsert:
  "map row_key (upsert new rows) =
     (if row_key new \<in> set (map row_key rows) then map row_key rows
      else map row_key rows @ [row_key new])"
  by (induction rows) (auto simp: row_key_def)

lemma upsert_distinct:
  "distinct (map row_key rows) \<Longrightarrow> distinct (map row_key (upsert new rows))"
  by (simp add: map_row_key_upsert)

lemma rows_for_upsert_other:
  "k \<noteq> row_key new \<Longrightarrow> rows_for k (upsert new rows) = rows_for k rows"
  by (induction rows) (auto simp: rows_for_def row_key_def)

lemma rows_for_absent:
  "k \<notin> set (map row_key rows) \<Longrightarrow> rows_for k rows = []"
  by (induction rows) (auto simp: rows_for_def)

lemma rows_for_upsert_same:
  assumes "distinct (map row_key rows)"
  shows "\<exists>x. rows_for (row_key new) (upsert new rows) = [x] \<and> row_values x = row_values new"
  using assms
proof (induction rows)
  case Nil
  then show ?case by (simp add: rows_for_def)
next
  case (Cons r rows)
  show ?case
  proof (cases "row_key r = row_key new")
    case True
    with Cons.prems have "row_key new \<notin> set (map row_key rows)" by auto
    then have "rows_for (row_key new) rows = []" by (rule rows_for_absent)
    with True show ?thesis
      by (simp add: rows_for_def row_key_def row_values_def)
  next
    case False
    from Cons.prems have "distinct (map row_key rows)" by simp
    from Cons.IH [OF this] False show ?thesis
      by (simp add: rows_for_def)
  qed
qed

lemma fold_upsert_distinct:
  "distinct (map row_key rows) \<Longrightarrow> distinct (map row_key (fold upsert ws rows))"
  by (induction ws arbitrary: rows) (simp_all add: upsert_distinct)

lemma fold_upsert_keys:
  "set (map row_key (fold upsert ws rows)) = set (map row_key ws) \<union> set (map row_key rows)"
  by (induction ws arbitrary: rows) (auto simp: upsert_keys simp del: set_map)

lemma rows_for_fold_upsert_other:
  "k \<notin> set (map row_key ws) \<Longrightarrow> rows_for k (fold upsert ws rows) = rows_for k rows"
  by (induction ws arbitrary: rows) (auto simp: rows_for_upsert_other)

lemma rows_for_fold_upsert:
  assumes "distinct (map row_key rows)" and "k \<in> set (map row_key ws)"
  shows "\<exists>x. rows_for k (fold upsert ws rows) = [x]
           \<and> row_values x = row_values (last (rows_for k ws))"
  using assms
proof (induction ws arbitrary: rows)
  case Nil
  then show ?case by simp
next
  case (Cons w ws)
  have d: "distinct (map row_key (upsert w rows))"
    using Cons.prems(1) by (rule upsert_distinct)
  show ?case
  proof (cases "k \<in> set (map row_key ws)")
    case True
    then have "rows_for k ws \<noteq> []"
      by (auto simp: rows_for_def filter_empty_conv)
    then have "last (rows_for k (w # ws)) = last (rows_for k ws)"
      by (simp add: rows_for_def)
    with Cons.IH [OF d True] show ?thesis by simp
  next
    case False
    with Cons.prems(2) have k: "k = row_key w" by simp
    from False have "rows_for k ws = []" by (rule rows_for_absent)
    then have l: "last (rows_for k (w # ws)) = w"
      by (simp add: rows_for_def k)
    from rows_for_upsert_same [OF Cons.prems(1), of w]
    obtain x where "rows_for (row_key w) (upsert w rows) = [x]" "row_values x = row_values w"
      by blast
    with rows_for_fold_upsert_other [OF False, of "upsert w rows"] k l show ?thesis
      by simp
  qed
qed

lemma save_tokens_fold:
  assumes "save_tokens isAddress a nid n ts d tbs rows = Inr rows'"
  shows "rows' = fold upsert
           (map (\<lambda>t. \<lparr>r_wallet_address = a, r_network_id = nid,
                       r_token_address = toLowerCase (tb_address t), r_symbol = tb_symbol t,
                       r_balance = tb_balance t, r_block_number = n, r_timestamp = ts,
                       r_date = d\<rparr>) tbs) rows"
  using assms
  by (induction tbs arbitrary: rows) (auto simp: standardizeAddress_def split: if_splits)

lemma saveBalances_written:
  assumes "saveBalances isAddress db wb n d ts = (Inr (), db')"
    and "find (\<lambda>net. net_name net = wb_network wb) (config_networks db) = Some net"
  shows "db' = db\<lparr>balances := fold upsert (written_rows net wb n d ts) (balances db),
                  transactions := transactions db + 1,
                  emitted := emitted db @ [''balancesChanged'']\<rparr>"
  using assms
  by (auto simp: saveBalances_def written_rows_def standardizeAddress_def
      split: if_splits sum.splits dest!: save_tokens_fold)

lemma saveBalances_rows:
  "\<exists>ws. balances (snd (saveBalances isAddress db wb n d ts)) = fold upsert ws (balances db)"
proof (cases "\<exists>rows. fst (saveBalances isAddress db wb n d ts) = Inr ()
                \<and> balances (snd (saveBalances isAddress db wb n d ts)) \<noteq> balances db")
  case False
  then have "balances (snd (saveBalances isAddress db wb n d ts)) = fold upsert [] (balances db)"
    by (auto simp: saveBalances_def split: option.splits sum.splits)
  then show ?thesis by blast
next
  case True
  then obtain net where
    net: "find (\<lambda>net. net_name net = wb_network wb) (config_networks db) = Some net"
    by (auto simp: saveBalances_def split: option.splits)
  from True have "saveBalances isAddress db wb n d ts
                  = (Inr (), snd (saveBalances isAddress db wb n d ts))"
    by (metis prod.collapse)
  from saveBalances_written [OF this net]
  have "balances (snd (saveBalances isAddress db wb n d ts))
        = balances (db\<lparr>balances := fold upsert (written_rows net wb n d ts) (balances db),
                  transactions := transactions db + 1,
                  emitted := emitted db @ [''balancesChanged'']\<rparr>)"
    by (rule arg_cong)
  then have "balances (snd (saveBalances isAddress db wb n d ts))
        = fold upsert (written_rows net wb n d ts) (balances db)"
    by simp
  then show ?thesis by blast
qed

lemma saveBalances_distinct:
  assumes "distinct (map row_key (balances db))"
  shows "distinct (map row_key (balances (snd (saveBalances isAddress db wb n d ts))))"
  using saveBalances_rows [of isAddress db wb n d ts] assms
  by (auto simp: fold_upsert_distinct)

lemma saveBalances_keys_kept:
  "set (map row_key (balances db))
   \<subseteq> set (map row_key (balances (snd (saveBalances isAddress db wb n d ts))))"
  using saveBalances_rows [of isAddress db wb n d ts]
  by (auto simp: fold_upsert_keys simp del: set_map)

lemma saveBalances_config:
  "config_networks (snd (saveBalances isAddress db wb n d ts)) = config_networks db"
  by (auto simp: saveBalances_def split: option.splits sum.splits)

text \<open>
  C4. Start from a table with at most one row per key (as the empty table has). After any
  \<open>saveBalances\<close>, whatever it returns, and a second \<open>saveBalances\<close> that succeeds for a
  configured network: both tables still have at most one row per key, no key of an
  earlier table is missing from a later one, and for every key the second write wrote,
  the final table has exactly one row with that key, holding the symbol, balance, block
  number and timestamp of the second write (of its last statement for that key).
\<close>

theorem saveBalances_last_write_wins:
  assumes uniq: "distinct (map row_key (balances db))"
    and first: "saveBalances isAddress db wb1 n1 d1 ts1 = (r1, db1)"
    and second: "saveBalances isAddress db1 wb2 n2 d2 ts2 = (Inr (), db2)"
    and net: "find (\<lambda>net. net_name net = wb_network wb2) (config_networks db) = Some net"
  shows "distinct (map row_key (balances db1)) \<and> distinct (map row_key (balances db2))
       \<and> set (map row_key (balances db)) \<subseteq> set (map row_key (balances db1))
       \<and> set (map row_key (balances db1)) \<subseteq> set (map row_key (balances db2))
       \<and> (\<forall>k\<in>set (map row_key (written_rows net wb2 n2 d2 ts2)).
            \<exists>x. rows_for k (balances db2) = [x]
              \<and> row_values x = row_values (last (rows_for k (written_rows net wb2 n2 d2 ts2))))"
proof -
  have db1: "db1 = snd (saveBalances isAddress db wb1 n1 d1 ts1)"
    and db2: "db2 = snd (saveBalances isAddress db1 wb2 n2 d2 ts2)"
    using first second by simp_all
  have u1: "distinct (map row_key (balances db1))"
    unfolding db1 using uniq by (rule saveBalances_distinct)
  have u2: "distinct (map row_key (balances db2))"
    unfolding db2 using u1 by (rule saveBalances_distinct)
  have k1: "set (map row_key (balances db)) \<subseteq> set (map row_key (balances db1))"
    unfolding db1 by (rule saveBalances_keys_kept)
  have k2: "set (map row_key (balances db1)) \<subseteq> set (map row_key (balances db2))"
    unfolding db2 by (rule saveBalances_keys_kept)
  have "config_networks db1 = config_networks db"
    unfolding db1 by (rule saveBalances_config)
  with net have "find (\<lambda>net. net_name net = wb_network wb2) (config_networks db1) = Some net"
    by simp
  from saveBalances_written [OF second this]
  have "balances db2 = fold upsert (written_rows net wb2 n2 d2 ts2) (balances db1)"
    by simp
  with rows_for_fold_upsert [OF u1]
  have "\<forall>k\<in>set (map row_key (written_rows net wb2 n2 d2 ts2)).
            \<exists>x. rows_for k (balances db2) = [x]
              \<and> row_values x = row_values (last (rows_for k (written_rows net wb2 n2 d2 ts2)))"
    by simp
  with u1 u2 k1 k2 show ?thesis by blast
qed

lemma after_first_eval:
  "saveBalances hex_address example_db first_write 100 ''2024-01-01'' 1704153590000
     = (Inr (), after_first)"
  by (simp add: after_first_def saveBalances_def example_db_def first_write_def
      example_network_def standardizeAddress_def hex_address_def toLowerCase_def row_key_def NATIVE_TOKEN_ADDRESS_def)

lemma after_first_explicit:
  "after_first =
     \<lparr>config_networks = [example_network],
      balances =
        [\<lparr>r_wallet_address = ''0x1234567890123456789012345678901234567890'', r_network_id = 1,
          r_token_address = ''0xeeeeeeeeeeeeeeeeeeeeeeeeeeeeeeeeeeeeeeee'', r_symbol = ''ETH'',
          r_balance = ''111'', r_block_number = 100, r_timestamp = 1704153590000,
          r_date = ''2024-01-01''\<rparr>,
         \<lparr>r_wallet_address = ''0x1234567890123456789012345678901234567890'', r_network_id = 1,
          r_token_address = ''0xa0b86991c6218b36c1d19d4a2e9eb0ce3606eb48'', r_symbol = ''USDC'',
          r_balance = ''5'', r_block_number = 100, r_timestamp = 1704153590000,
          r_date = ''2024-01-01''\<rparr>],
      block_mapping = [], emitted = [''balancesChanged''], transactions = 1\<rparr>"
  by (simp add: after_first_def saveBalances_def example_db_def first_write_def
      example_network_def standardizeAddress_def hex_address_def toLowerCase_def
      row_key_def NATIVE_TOKEN_ADDRESS_def)

lemma after_second_eval:
  "saveBalances hex_address after_first second_write 101 ''2024-01-01'' 1704153599000
     = (Inr (), after_second)"
  by (simp add: after_second_def after_first_explicit saveBalances_def second_write_def
      example_network_def standardizeAddress_def hex_address_def toLowerCase_def
      row_key_def NATIVE_TOKEN_ADDRESS_def)

theorem saveBalances_last_write_wins_witness:
  "distinct (map row_key (balances example_db))
   \<and> saveBalances hex_address example_db first_write 100 ''2024-01-01'' 1704153590000
       = (Inr (), after_first)
   \<and> saveBalances hex_address after_first second_write 101 ''2024-01-01'' 1704153599000
       = (Inr (), after_second)
   \<and> find (\<lambda>net. net_name net = wb_network second_write) (config_networks example_db)
       = Some example_network
   \<and> map row_values (rows_for usdc_key (balances after_first))
       = [(''USDC'', ''5'', 100, 1704153590000)]
   \<and> usdc_key \<in> set (map row_key
         (written_rows example_network second_write 101 ''2024-01-01'' 1704153599000))
   \<and> (\<exists>x. rows_for usdc_key (balances after_second) = [x]
          \<and> row_values x = (''USDC.e'', ''7'', 101, 1704153599000))"
proof -
  have uniq: "distinct (map row_key (balances example_db))"
    by (simp add: example_db_def)
  have net: "find (\<lambda>net. net_name net = wb_network second_write) (config_networks example_db)
       = Some example_network"
    by (simp add: example_db_def second_write_def example_network_def)
  have key: "usdc_key \<in> set (map row_key
         (written_rows example_network second_write 101 ''2024-01-01'' 1704153599000))"
    by (simp add: usdc_key_def written_rows_def second_write_def example_network_def
        row_key_def toLowerCase_def NATIVE_TOKEN_ADDRESS_def)
  have lastw: "row_values (last (rows_for usdc_key
         (written_rows example_network second_write 101 ''2024-01-01'' 1704153599000)))
       = (''USDC.e'', ''7'', 101, 1704153599000)"
    by (simp add: usdc_key_def written_rows_def second_write_def example_network_def
        row_key_def rows_for_def row_values_def toLowerCase_def NATIVE_TOKEN_ADDRESS_def)
  have before: "map row_values (rows_for usdc_key (balances after_first))
       = [(''USDC'', ''5'', 100, 1704153590000)]"
    by (simp add: after_first_explicit usdc_key_def rows_for_def row_key_def row_values_def
        toLowerCase_def)
  from saveBalances_last_write_wins [OF uniq after_first_eval after_second_eval net] key
  have "\<exists>x. rows_for usdc_key (balances after_second) = [x]
          \<and> row_values x = row_values (last (rows_for usdc_key
               (written_rows example_network second_write 101 ''2024-01-01'' 1704153599000)))"
    by blast
  with lastw have "\<exists>x. rows_for usdc_key (balances after_second) = [x]
          \<and> row_values x = (''USDC.e'', ''7'', 101, 1704153599000)"
    by simp
  with uniq net key before after_first_eval after_second_eval show ?thesis
    by blast
qed

section \<open>Block mapping cache\<close>

lemma find_after_replace:
  "find P (filter (\<lambda>r. \<not> P r) rows @ [new]) = (if P new then Some new else None)"
  by (induction rows) simp_all

lemma saved_mapping_found:
  "BalanceDatabase_getBlockNumberForDate (saveBlockMapping db networkId dateStr n ts)
     networkId dateStr = Some n"
proof -
  define P where "P = (\<lambda>r :: block_mapping_row. bm_network_id r = networkId \<and> bm_date r = dateStr)"
  define new where "new = \<lparr>bm_network_id = networkId, bm_date = dateStr, bm_block_number = n,
              bm_timestamp = ts\<rparr>"
  have "P new"
    by (simp add: P_def new_def)
  then have "find P (filter (\<lambda>r. \<not> P r) (block_mapping db) @ [new]) = Some new"
    by (simp add: find_after_replace)
  then show ?thesis
    unfolding BalanceDatabase_getBlockNumberForDate_def saveBlockMapping_def P_def new_def
    by simp
qed

lemma getBlockNumberForDate_miss:
  assumes "BalanceDatabase_getBlockNumberForDate db networkId (toISODateString d) = None
           \<or> BalanceDatabase_getBlockNumberForDate db networkId (toISODateString d) = Some 0"
  shows "WalletTracker_getBlockNumberForDate c db d networkId log
           = resolve_and_save c db d (toISODateString d) networkId log"
  using assms by (auto simp: WalletTracker_getBlockNumberForDate_def)

text \<open>A cached block other than 0 is returned as it is: the database and the log of
  chain reads are unchanged, whatever the client would answer.\<close>

lemma getBlockNumberForDate_cache_hit:
  assumes "BalanceDatabase_getBlockNumberForDate db networkId (toISODateString d) = Some b"
    and "b \<noteq> 0"
  shows "WalletTracker_getBlockNumberForDate c db d networkId log = (Inr b, db, log)"
  using assms by (simp add: WalletTracker_getBlockNumberForDate_def)

lemma getBlockNumberForDate_resolved_then_cached:
  assumes "findBlockNumberForTimestamp c (getEndOfDay d div 1000) networkId log = (Inr r, log')"
    and "BalanceDatabase_getBlockNumberForDate db networkId (toISODateString d) = None"
    and "blockNumber r \<noteq> 0"
  shows "\<exists>db'. WalletTracker_getBlockNumberForDate c db d networkId log
                 = (Inr (blockNumber r), db', log')
             \<and> WalletTracker_getBlockNumberForDate c2 db' d networkId log2
                 = (Inr (blockNumber r), db', log2)"
proof -
  let ?db' = "saveBlockMapping db networkId (toISODateString d) (blockNumber r) (blockTimestamp r)"
  have "WalletTracker_getBlockNumberForDate c db d networkId log = (Inr (blockNumber r), ?db', log')"
    using assms(1,2)
    by (simp add: WalletTracker_getBlockNumberForDate_def resolve_and_save_def getEndOfDay_def
        Let_def)
  moreover have "WalletTracker_getBlockNumberForDate c2 ?db' d networkId log2
                 = (Inr (blockNumber r), ?db', log2)"
    using saved_mapping_found assms(3) by (rule getBlockNumberForDate_cache_hit)
  ultimately show ?thesis by blast
qed

lemma young_chain_resolution:
  "findBlockNumberForTimestamp young_chain 1704067199 31337 log =
     (Inr \<lparr>blockNumber = 0, blockTimestamp = 1704067210\<rparr>,
      log @ [GetBlockNumber, GetBlock 5, GetBlock 0])"
  by (simp add: findBlockNumberForTimestamp_def getBlockNumber_def getBlock_def young_chain_def
      estimatedBlock_def NETWORK_BLOCK_TIMES_def DEFAULT_BLOCK_TIME_def walk_backwards.simps)

text \<open>
  C9 (resolving a network and date a second time returns the cached block and number
  without any chain read) fails for a date that resolves to block 0. On the young chain,
  the end of 2023-12-31 (1704067199) lies before the first block; the estimate is block 0,
  whose timestamp is after the target, and the backward walk stops at once, so block 0
  is returned and saved. The second resolution finds the mapping, but
  \<open>if (existingBlock)\<close> is false for \<open>0n\<close>: it reads the chain three times again and
  saves the mapping again. (For a cached block other than 0 the claim holds, by the two
  lemmas above.)
\<close>

theorem getBlockNumberForDate_block_zero_not_cached:
  "WalletTracker_getBlockNumberForDate young_chain example_db 1703980800000 31337 []
     = (Inr 0, zero_cached_db, [GetBlockNumber, GetBlock 5, GetBlock 0])
   \<and> BalanceDatabase_getBlockNumberForDate zero_cached_db 31337 ''2023-12-31'' = Some 0
   \<and> WalletTracker_getBlockNumberForDate young_chain zero_cached_db 1703980800000 31337 []
     = (Inr 0, zero_cached_db\<lparr>emitted := [''blockMappingChanged'', ''blockMappingChanged'']\<rparr>,
        [GetBlockNumber, GetBlock 5, GetBlock 0])"
proof -
  have t: "setUTCHours 1703980800000 23 59 59 999 div 1000 = 1704067199"
    by (simp add: setUTCHours_def MS_PER_DAY_def)
  have c0: "BalanceDatabase_getBlockNumberForDate example_db 31337 ''2023-12-31'' = None"
    by (simp add: BalanceDatabase_getBlockNumberForDate_def example_db_def)
  have c1: "BalanceDatabase_getBlockNumberForDate zero_cached_db 31337 ''2023-12-31'' = Some 0"
    by (simp add: BalanceDatabase_getBlockNumberForDate_def zero_cached_db_def example_db_def)
  have first: "WalletTracker_getBlockNumberForDate young_chain example_db 1703980800000 31337 []
     = (Inr 0, zero_cached_db, [GetBlockNumber, GetBlock 5, GetBlock 0])"
    using young_chain_resolution [of "[]"]
      getBlockNumberForDate_miss [of example_db 31337 1703980800000 young_chain "[]"] c0
    by (simp add: resolve_and_save_def Let_def toISODateString_examples t saveBlockMapping_def
        zero_cached_db_def example_db_def)
  have second: "WalletTracker_getBlockNumberForDate young_chain zero_cached_db 1703980800000 31337 []
     = (Inr 0, zero_cached_db\<lparr>emitted := [''blockMappingChanged'', ''blockMappingChanged'']\<rparr>,
        [GetBlockNumber, GetBlock 5, GetBlock 0])"
    using young_chain_resolution [of "[]"]
      getBlockNumberForDate_miss [of zero_cached_db 31337 1703980800000 young_chain "[]"] c1
    by (simp add: resolve_and_save_def Let_def toISODateString_examples t saveBlockMapping_def
        zero_cached_db_def example_db_def)
  from first c1 second show ?thesis by blast
qed

section \<open>Resolution of a date that is not over on the chain\<close>

text \<open>
  C5, as the code has it. When no block (or block 0) is cached for the date and the end
  of the day in Unix seconds is after the timestamp of the latest block,
  \<open>findBlockNumberForTimestamp\<close> returns the latest block and its timestamp after two
  chain reads; \<open>getBlockNumberForDate\<close> returns that block number and saves the mapping
  from the date to that block and timestamp, as for any other resolution, so that the
  database then holds the block for the date. When that block is not block 0, a later
  resolution of the date, whatever the chain then answers, returns the cached block and
  reads nothing from the chain: the date is not resolved again.
\<close>

theorem getBlockNumberForDate_future_date:
  assumes head: "chain_head c = Inr currentBlock"
    and cur: "chain_timestamp c currentBlock = Inr currentTimestamp"
    and future: "getEndOfDay d div 1000 > currentTimestamp"
    and miss: "BalanceDatabase_getBlockNumberForDate db networkId (toISODateString d) = None
               \<or> BalanceDatabase_getBlockNumberForDate db networkId (toISODateString d) = Some 0"
  shows "findBlockNumberForTimestamp c (getEndOfDay d div 1000) networkId log
           = (Inr \<lparr>blockNumber = currentBlock, blockTimestamp = currentTimestamp\<rparr>,
              log @ [GetBlockNumber, GetBlock currentBlock])
       \<and> WalletTracker_getBlockNumberForDate c db d networkId log
           = (Inr currentBlock,
              saveBlockMapping db networkId (toISODateString d) currentBlock currentTimestamp,
              log @ [GetBlockNumber, GetBlock currentBlock])
       \<and> BalanceDatabase_getBlockNumberForDate
            (saveBlockMapping db networkId (toISODateString d) currentBlock currentTimestamp)
            networkId (toISODateString d) = Some currentBlock
       \<and> (currentBlock \<noteq> 0 \<longrightarrow>
            WalletTracker_getBlockNumberForDate later
              (saveBlockMapping db networkId (toISODateString d) currentBlock currentTimestamp)
              d networkId later_log
            = (Inr currentBlock,
               saveBlockMapping db networkId (toISODateString d) currentBlock currentTimestamp,
               later_log))"
proof -
  have f: "findBlockNumberForTimestamp c (getEndOfDay d div 1000) networkId log
           = (Inr \<lparr>blockNumber = currentBlock, blockTimestamp = currentTimestamp\<rparr>,
              log @ [GetBlockNumber, GetBlock currentBlock])"
    using head cur future
    by (simp add: findBlockNumberForTimestamp_def getBlockNumber_def getBlock_def)
  have "WalletTracker_getBlockNumberForDate c db d networkId log
           = resolve_and_save c db d (toISODateString d) networkId log"
    using miss by (rule getBlockNumberForDate_miss)
  with f have "WalletTracker_getBlockNumberForDate c db d networkId log
           = (Inr currentBlock,
              saveBlockMapping db networkId (toISODateString d) currentBlock currentTimestamp,
              log @ [GetBlockNumber, GetBlock currentBlock])"
    by (simp add: resolve_and_save_def getEndOfDay_def Let_def)
  moreover have "WalletTracker_getBlockNumberForDate later
              (saveBlockMapping db networkId (toISODateString d) currentBlock currentTimestamp)
              d networkId later_log
            = (Inr currentBlock,
               saveBlockMapping db networkId (toISODateString d) currentBlock currentTimestamp,
               later_log)"
    if "currentBlock \<noteq> 0"
    using saved_mapping_found that by (rule getBlockNumberForDate_cache_hit)
  ultimately show ?thesis
    using f saved_mapping_found by blast
qed

theorem getBlockNumberForDate_future_date_witness:
  "chain_head fast_chain = Inr 100
   \<and> chain_timestamp fast_chain 100 = Inr 1700001100
   \<and> getEndOfDay 1699920000000 div 1000 = 1700006399
   \<and> (1700006399::int) > 1700001100
   \<and> BalanceDatabase_getBlockNumberForDate example_db 1 (toISODateString 1699920000000) = None
   \<and> findBlockNumberForTimestamp fast_chain 1700006399 1 []
       = (Inr \<lparr>blockNumber = 100, blockTimestamp = 1700001100\<rparr>, [GetBlockNumber, GetBlock 100])
   \<and> WalletTracker_getBlockNumberForDate fast_chain example_db 1699920000000 1 []
       = (Inr 100, head_cached_db, [GetBlockNumber, GetBlock 100])
   \<and> BalanceDatabase_getBlockNumberForDate head_cached_db 1 ''2023-11-14'' = Some 100
   \<and> (100::int) \<noteq> 0
   \<and> WalletTracker_getBlockNumberForDate halted_chain head_cached_db 1699920000000 1 []
       = (Inr 100, head_cached_db, [])"
proof -
  have h: "chain_head fast_chain = Inr 100" and c: "chain_timestamp fast_chain 100 = Inr 1700001100"
    by (simp_all add: fast_chain_def)
  have t: "getEndOfDay 1699920000000 div 1000 = 1700006399"
    by (simp add: getEndOfDay_def setUTCHours_def MS_PER_DAY_def)
  have f: "getEndOfDay 1699920000000 div 1000 > 1700001100"
    by (simp add: t)
  have m: "BalanceDatabase_getBlockNumberForDate example_db 1 (toISODateString 1699920000000) = None"
    by (simp add: BalanceDatabase_getBlockNumberForDate_def example_db_def)
  have s: "saveBlockMapping example_db 1 ''2023-11-14'' 100 1700001100 = head_cached_db"
    by (simp add: saveBlockMapping_def head_cached_db_def example_db_def)
  from getBlockNumberForDate_future_date
         [where later = halted_chain and later_log = "[]" and log = "[]", OF h c f disjI1, OF m] m
  show ?thesis
    by (simp add: h c t s toISODateString_examples)
qed

text \<open>
  C5 as stated fails: on the chain with a block every 11 seconds the latest block (100,
  timestamp 1700001100) is before the end of 2023-11-14 (1700006399); the resolution
  returns block 100 and the mapping for the date is saved, and the next resolution of the
  date returns the cached block without reading the chain.
\<close>

theorem getBlockNumberForDate_future_date_counterexample:
  "WalletTracker_getBlockNumberForDate fast_chain example_db 1699920000000 1 []
     = (Inr 100, head_cached_db, [GetBlockNumber, GetBlock 100])
   \<and> block_mapping head_cached_db
     = [\<lparr>bm_network_id = 1, bm_date = ''2023-11-14'', bm_block_number = 100,
         bm_timestamp = 1700001100\<rparr>]
   \<and> WalletTracker_getBlockNumberForDate fast_chain head_cached_db 1699920000000 1 []
     = (Inr 100, head_cached_db, [])"
proof -
  have t: "setUTCHours 1699920000000 23 59 59 999 div 1000 = 1700006399"
    by (simp add: setUTCHours_def MS_PER_DAY_def)
  have m: "BalanceDatabase_getBlockNumberForDate example_db 1 (toISODateString 1699920000000) = None"
    by (simp add: BalanceDatabase_getBlockNumberForDate_def example_db_def)
  have f: "findBlockNumberForTimestamp fast_chain 1700006399 1 []
       = (Inr \<lparr>blockNumber = 100, blockTimestamp = 1700001100\<rparr>, [GetBlockNumber, GetBlock 100])"
    by (simp add: findBlockNumberForTimestamp_def getBlockNumber_def getBlock_def fast_chain_def)
  have first: "WalletTracker_getBlockNumberForDate fast_chain example_db 1699920000000 1 []
     = (Inr 100, head_cached_db, [GetBlockNumber, GetBlock 100])"
    using getBlockNumberForDate_miss [of example_db 1 1699920000000 fast_chain "[]"] m f
    by (simp add: resolve_and_save_def Let_def t toISODateString_examples saveBlockMapping_def
        head_cached_db_def example_db_def)
  have hit: "BalanceDatabase_getBlockNumberForDate head_cached_db 1 (toISODateString 1699920000000)
     = Some 100"
    by (simp add: BalanceDatabase_getBlockNumberForDate_def head_cached_db_def example_db_def
        toISODateString_examples)
  have second: "WalletTracker_getBlockNumberForDate fast_chain head_cached_db 1699920000000 1 []
     = (Inr 100, head_cached_db, [])"
    using hit by (rule getBlockNumberForDate_cache_hit) simp
  have "block_mapping head_cached_db
     = [\<lparr>bm_network_id = 1, bm_date = ''2023-11-14'', bm_block_number = 100,
         bm_timestamp = 1700001100\<rparr>]"
    by (simp add: head_cached_db_def)
  with first second show ?thesis by blast
qed

section \<open>Batches of wallets\<close>

lemma collect_Inr:
  "collect rs = Inr xs \<Longrightarrow> rs = map Inr xs"
  by (induction rs arbitrary: xs rule: collect.induct) (auto split: sum.splits)

lemma collect_Inl:
  "collect rs = Inl e \<Longrightarrow> Inl e \<in> set rs"
  by (induction rs rule: collect.induct) (auto split: sum.splits)

lemma standardizedWallets_Inr:
  assumes "standardizedWallets isAddress wallets = Inr ws"
  shows "map w_address ws = map (\<lambda>w. toLowerCase (w_address w)) wallets"
proof -
  from assms have "map (\<lambda>w. case standardizeAddress isAddress (w_address w) of
                          Inl e \<Rightarrow> Inl e
                        | Inr a \<Rightarrow> Inr (w\<lparr>w_address := a\<rparr>)) wallets = map Inr ws"
    unfolding standardizedWallets_def by (rule collect_Inr)
  then show ?thesis
  proof (induction wallets arbitrary: ws)
    case Nil
    then show ?case by simp
  next
    case (Cons w wallets)
    then show ?case
      by (cases ws) (auto simp: standardizeAddress_def split: if_splits)
  qed
qed

lemma getWalletsBalances_Inr:
  assumes "getWalletsBalances isAddress c wallets net n log = (Inr bals, log')"
  shows "log' = log @ [batch_multicall net n wallets]
       \<and> length bals = length wallets
       \<and> (\<forall>b\<in>set bals. wb_network b = net_name net)"
proof -
  from assms obtain ws results where
    ws: "standardizedWallets isAddress wallets = Inr ws"
    and log: "log' = log @ [Multicall (allCalls (map w_address ws) (net_tokens net)) n]"
    and dec: "collect (map (decode_wallet net results (length ws)) (zip [0..<length ws] ws)) = Inr bals"
    by (auto simp: getWalletsBalances_def multicall_def split: sum.splits)
  from standardizedWallets_Inr [OF ws]
  have addrs: "map w_address ws = map (\<lambda>w. toLowerCase (w_address w)) wallets" .
  then have lw: "length ws = length wallets"
    by (metis length_map)
  from collect_Inr [OF dec]
  have m: "map (decode_wallet net results (length ws)) (zip [0..<length ws] ws) = map Inr bals" .
  then have "length bals = length (zip [0..<length ws] ws)"
    by (metis length_map)
  then have lb: "length bals = length wallets"
    using lw by simp
  have "wb_network b = net_name net" if "b \<in> set bals" for b
  proof -
    from that have "Inr b \<in> set (map (decode_wallet net results (length ws)) (zip [0..<length ws] ws))"
      unfolding m by simp
    then obtain iw where "decode_wallet net results (length ws) iw = Inr b"
      by auto
    then show ?thesis
      by (cases iw) (auto simp: decode_wallet_def Let_def split: sum.splits)
  qed
  with log addrs lb show ?thesis
    by (simp add: batch_multicall_def)
qed

lemma getWalletsBalances_not_timeout:
  assumes "\<forall>calls m. chain_multicall c calls m \<noteq> Inl (Error ''Rate limit timeout'')"
  shows "fst (getWalletsBalances isAddress c wallets net n log) \<noteq> Inl (Error ''Rate limit timeout'')"
proof
  assume e: "fst (getWalletsBalances isAddress c wallets net n log) = Inl (Error ''Rate limit timeout'')"
  show False
  proof (cases "standardizedWallets isAddress wallets")
    case (Inl x)
    with e have "x = Error ''Rate limit timeout''"
      by (simp add: getWalletsBalances_def)
    with Inl have "Inl (Error ''Rate limit timeout'')
       \<in> set (map (\<lambda>w. case standardizeAddress isAddress (w_address w) of
                          Inl e \<Rightarrow> Inl e
                        | Inr a \<Rightarrow> Inr (w\<lparr>w_address := a\<rparr>)) wallets)"
      unfolding standardizedWallets_def by (intro collect_Inl) simp
    then show False
      by (auto simp: standardizeAddress_def split: if_splits)
  next
    case (Inr ws)
    show False
    proof (cases "chain_multicall c (allCalls (map w_address ws) (net_tokens net)) n")
      case (Inl x)
      with e Inr assms show False
        by (auto simp: getWalletsBalances_def multicall_def)
    next
      case results: (Inr results)
      with e Inr have "collect (map (decode_wallet net results (length ws)) (zip [0..<length ws] ws))
          = Inl (Error ''Rate limit timeout'')"
        by (simp add: getWalletsBalances_def multicall_def)
      from collect_Inl [OF this] obtain iw where
        d: "decode_wallet net results (length ws) iw = Inl (Error ''Rate limit timeout'')"
        by auto
      obtain i w where iw: "iw = (i, w)" by (cases iw)
      from d [unfolded iw] show False
      proof (cases "balance_text (take (length ws) results) i")
        case (Inl x)
        then show ?thesis
          using d iw by (auto simp: decode_wallet_def Let_def balance_text_def
              undefined_result_error_def split: if_splits)
      next
        case nat: (Inr nb)
        with d iw have "walletTokenBalances (net_tokens net) (drop (length ws) results) (length ws) i
             = Inl (Error ''Rate limit timeout'')"
          by (auto simp: decode_wallet_def Let_def split: sum.splits)
        from collect_Inl [OF this [unfolded walletTokenBalances_def]] show False
          by (auto simp: balance_text_def undefined_result_error_def split: if_splits sum.splits)
      qed
    qed
  qed
qed

lemma save_each_Inr:
  assumes "save_each isA bals n dateStr ts db = (Inr (), db')"
    and "\<forall>b\<in>set bals. find (\<lambda>x. net_name x = wb_network b) (config_networks db) \<noteq> None"
  shows "transactions db' = transactions db + length bals
       \<and> config_networks db' = config_networks db"
  using assms
proof (induction bals arbitrary: db)
  case Nil
  then show ?case by simp
next
  case (Cons b bals)
  from Cons.prems(1) obtain db1 where
    s: "saveBalances isA db b n dateStr ts = (Inr (), db1)"
    and r: "save_each isA bals n dateStr ts db1 = (Inr (), db')"
    by (auto split: prod.splits sum.splits)
  from Cons.prems(2) obtain net where
    net: "find (\<lambda>x. net_name x = wb_network b) (config_networks db) = Some net"
    by auto
  from saveBalances_written [OF s net]
  have t1: "transactions db1 = transactions db + 1" and c1: "config_networks db1 = config_networks db"
    by simp_all
  from Cons.prems(2) c1
  have "\<forall>b\<in>set bals. find (\<lambda>x. net_name x = wb_network b) (config_networks db1) \<noteq> None"
    by simp
  from Cons.IH [OF r this] t1 c1 show ?case
    by simp
qed

text \<open>One round of the loop of a run that returns without error.\<close>

lemma fetchAndSave_step:
  assumes run: "fetchAndSaveWalletBatches env wallets i net n dateStr ts w = Some (Inr (), w')"
    and i: "i < length wallets"
    and limiter: "env_limiters env (net_id net) \<noteq> None"
    and nt: "\<forall>calls m. chain_multicall (env_clients env (net_id net)) calls m
               \<noteq> Inl (Error ''Rate limit timeout'')"
    and conf: "find (\<lambda>x. net_name x = net_name net) (config_networks (the_db w)) \<noteq> None"
  shows "\<exists>w2 k. fetchAndSaveWalletBatches env wallets (i + WALLET_BALANCE_BATCH_SIZE) net n dateStr ts w2
                = Some (Inr (), w')
           \<and> chain_log w2 = chain_log w
               @ [batch_multicall net n (take WALLET_BALANCE_BATCH_SIZE (drop i wallets))]
           \<and> transactions (the_db w2) = transactions (the_db w)
               + length (take WALLET_BALANCE_BATCH_SIZE (drop i wallets))
           \<and> config_networks (the_db w2) = config_networks (the_db w)
           \<and> env_acquire env (acquired w + k) = Removed True
           \<and> acquired w2 = acquired w + k + 1
           \<and> limiter_events w2 = limiter_events w
               @ timeout_events k @ [Acquire DEFAULT_RETRY_TIMEOUT, Invoke]"
proof -
  let ?batch = "take WALLET_BALANCE_BATCH_SIZE (drop i wallets)"
  let ?request = "getWalletsBalances (env_isAddress env) (env_clients env (net_id net)) ?batch net n"
  from run i obtain ex bals db' where
    ex: "execute (env_limiters env) (net_id net) (env_acquire env) ?request
           (acquired w) (chain_log w) [] = Some ex"
    and out: "outcome ex = Inr bals"
    and sv: "save_each (env_isAddress env) bals n dateStr ts (the_db w) = (Inr (), db')"
    and rest: "fetchAndSaveWalletBatches env wallets (i + WALLET_BALANCE_BATCH_SIZE) net n dateStr ts
                 (w\<lparr>chain_log := final ex, acquired := acquisitions ex,
                    limiter_events := limiter_events w @ events ex, the_db := db'\<rparr>)
               = Some (Inr (), w')"
    by (subst (asm) fetchAndSaveWalletBatches.simps)
      (auto simp: Let_def split: option.splits sum.splits prod.splits)
  have "\<forall>s. fst (?request s) \<noteq> Inl (Error ''Rate limit timeout'')"
    using getWalletsBalances_not_timeout [OF nt] by blast
  with execute_value_events [OF ex] limiter out
  obtain k where req: "?request (chain_log w) = (Inr bals, final ex)"
    and tok: "env_acquire env (acquired w + k) = Removed True"
    and acq: "acquisitions ex = acquired w + k + 1"
    and evs: "events ex = [] @ timeout_events k @ [Acquire DEFAULT_RETRY_TIMEOUT, Invoke]"
    by blast
  from getWalletsBalances_Inr [OF req]
  have log: "final ex = chain_log w @ [batch_multicall net n ?batch]"
    and len: "length bals = length ?batch"
    and names: "\<forall>b\<in>set bals. wb_network b = net_name net"
    by blast+
  from names conf
  have "\<forall>b\<in>set bals. find (\<lambda>x. net_name x = wb_network b) (config_networks (the_db w)) \<noteq> None"
    by simp
  from save_each_Inr [OF sv this] len
  have "transactions db' = transactions (the_db w) + length ?batch"
    and "config_networks db' = config_networks (the_db w)"
    by simp_all
  with rest log tok acq evs show ?thesis
    by (intro exI [of _ "w\<lparr>chain_log := final ex, acquired := acquisitions ex,
                    limiter_events := limiter_events w @ events ex, the_db := db'\<rparr>"]
        exI [of _ k]) simp
qed

lemma fetchAndSave_done:
  assumes "fetchAndSaveWalletBatches env wallets i net n dateStr ts w = Some (Inr (), w')"
    and "\<not> i < length wallets"
  shows "w' = w"
  using assms by (subst (asm) fetchAndSaveWalletBatches.simps) simp

text \<open>
  What a run from index \<open>i\<close> that returns without error has done: one multicall per batch,
  in order, each invoked by the rate limiter after it had removed a token (following
  \<open>k\<close> retried acquisitions, with \<open>k\<close> of the batch), and one transaction per wallet.
\<close>

lemma fetchAndSave_effects:
  assumes "fetchAndSaveWalletBatches env wallets i net n dateStr ts w = Some (Inr (), w')"
    and limiter: "env_limiters env (net_id net) \<noteq> None"
    and nt: "\<forall>calls m. chain_multicall (env_clients env (net_id net)) calls m
               \<noteq> Inl (Error ''Rate limit timeout'')"
    and "find (\<lambda>x. net_name x = net_name net) (config_networks (the_db w)) \<noteq> None"
  shows "chain_log w' = chain_log w @ map (batch_multicall net n) (batches_from i wallets)
       \<and> transactions (the_db w') = transactions (the_db w) + (length wallets - i)
       \<and> config_networks (the_db w') = config_networks (the_db w)
       \<and> (\<exists>ks. length ks = length (batches_from i wallets)
               \<and> acquired w' = acquired w + sum_list ks + length ks
               \<and> limiter_events w' = limiter_events w
                   @ concat (map (\<lambda>k. timeout_events k @ [Acquire DEFAULT_RETRY_TIMEOUT, Invoke]) ks))"
  using assms(1,4)
proof (induction "length wallets - i" arbitrary: i w rule: less_induct)
  case less
  show ?case
  proof (cases "i < length wallets")
    case False
    have "batches_from i wallets = []"
      using False by (subst batches_from.simps) simp
    with fetchAndSave_done [OF less.prems(1) False] False show ?thesis
      by (intro conjI exI [of _ "[]"]) simp_all
  next
    case True
    from fetchAndSave_step [OF less.prems(1) True limiter nt less.prems(2)]
    obtain w2 k where
      rest: "fetchAndSaveWalletBatches env wallets (i + WALLET_BALANCE_BATCH_SIZE) net n dateStr ts w2
                = Some (Inr (), w')"
      and log: "chain_log w2 = chain_log w
               @ [batch_multicall net n (take WALLET_BALANCE_BATCH_SIZE (drop i wallets))]"
      and tx: "transactions (the_db w2) = transactions (the_db w)
               + length (take WALLET_BALANCE_BATCH_SIZE (drop i wallets))"
      and cf: "config_networks (the_db w2) = config_networks (the_db w)"
      and acq: "acquired w2 = acquired w + k + 1"
      and evs: "limiter_events w2 = limiter_events w
               @ timeout_events k @ [Acquire DEFAULT_RETRY_TIMEOUT, Invoke]"
      by blast
    have smaller: "length wallets - (i + WALLET_BALANCE_BATCH_SIZE) < length wallets - i"
      using True by (simp add: WALLET_BALANCE_BATCH_SIZE_def)
    have conf2: "find (\<lambda>x. net_name x = net_name net) (config_networks (the_db w2)) \<noteq> None"
      using less.prems(2) cf by simp
    from less.hyps [OF smaller rest conf2]
    obtain ks where log': "chain_log w' = chain_log w2
                 @ map (batch_multicall net n) (batches_from (i + WALLET_BALANCE_BATCH_SIZE) wallets)"
      and tx': "transactions (the_db w') = transactions (the_db w2)
                 + (length wallets - (i + WALLET_BALANCE_BATCH_SIZE))"
      and cf': "config_networks (the_db w') = config_networks (the_db w2)"
      and lks: "length ks = length (batches_from (i + WALLET_BALANCE_BATCH_SIZE) wallets)"
      and acq': "acquired w' = acquired w2 + sum_list ks + length ks"
      and evs': "limiter_events w' = limiter_events w2
                   @ concat (map (\<lambda>k. timeout_events k @ [Acquire DEFAULT_RETRY_TIMEOUT, Invoke]) ks)"
      by blast
    have b: "batches_from i wallets = take WALLET_BALANCE_BATCH_SIZE (drop i wallets)
               # batches_from (i + WALLET_BALANCE_BATCH_SIZE) wallets"
      using True by (subst batches_from.simps) simp
    have l: "length (take WALLET_BALANCE_BATCH_SIZE (drop i wallets))
               + (length wallets - (i + WALLET_BALANCE_BATCH_SIZE)) = length wallets - i"
      using True by (simp add: WALLET_BALANCE_BATCH_SIZE_def min_def)
    from log log' tx tx' cf cf' b l lks acq acq' evs evs' show ?thesis
      by (intro conjI exI [of _ "k # ks"]) simp_all
  qed
qed



lemma batches_from_twelve:
  assumes "length xs = 12"
  shows "batches_from 0 xs = [take 5 xs, take 5 (drop 5 xs), drop 10 xs]"
proof -
  have "batches_from 15 xs = []"
    using assms by (subst batches_from.simps) simp
  then have "batches_from 10 xs = [drop 10 xs]"
    using assms by (subst batches_from.simps) (simp add: WALLET_BALANCE_BATCH_SIZE_def)
  then have "batches_from 5 xs = [take 5 (drop 5 xs), drop 10 xs]"
    using assms by (subst batches_from.simps) (simp add: WALLET_BALANCE_BATCH_SIZE_def)
  then show ?thesis
    using assms by (subst batches_from.simps) (simp add: WALLET_BALANCE_BATCH_SIZE_def)
qed

text \<open>
  A run returns without error when the limiter always grants the token, the wallet and
  token addresses are valid, the multicall answers every call list with at least as many
  results, and the network is configured.
\<close>

lemma save_tokens_success:
  assumes "\<forall>t\<in>set tbs. isA (tb_address t)"
  shows "\<exists>rows'. save_tokens isA a nid n ts d tbs rows = Inr rows'"
  using assms by (induction tbs arbitrary: rows) (simp_all add: standardizeAddress_def)

lemma saveBalances_success:
  assumes "find (\<lambda>x. net_name x = wb_network wb) (config_networks db) \<noteq> None"
    and "isA (wb_address wb)"
    and "\<forall>t\<in>set (wb_tokens wb). isA (tb_address t)"
  shows "fst (saveBalances isA db wb n d ts) = Inr ()"
proof -
  from assms(1) obtain net where
    net: "find (\<lambda>x. net_name x = wb_network wb) (config_networks db) = Some net"
    by auto
  from save_tokens_success [OF assms(3)]
  obtain rows' where "save_tokens isA (toLowerCase (wb_address wb)) (net_id net) n ts d (wb_tokens wb)
      (upsert \<lparr>r_wallet_address = toLowerCase (wb_address wb), r_network_id = net_id net,
                                r_token_address = NATIVE_TOKEN_ADDRESS,
                                r_symbol = nt_symbol (net_native_token net),
                                r_balance = wb_native_balance wb,
                                r_block_number = n, r_timestamp = ts, r_date = d\<rparr>
                          (balances db)) = Inr rows'"
    by blast
  with net assms(2) show ?thesis
    by (simp add: saveBalances_def standardizeAddress_def)
qed

lemma save_each_success:
  assumes "\<forall>b\<in>set bals. find (\<lambda>x. net_name x = wb_network b) (config_networks db) \<noteq> None
                         \<and> isA (wb_address b) \<and> (\<forall>t\<in>set (wb_tokens b). isA (tb_address t))"
  shows "\<exists>db'. save_each isA bals n d ts db = (Inr (), db')"
  using assms
proof (induction bals arbitrary: db)
  case Nil
  then show ?case by simp
next
  case (Cons b bals)
  from Cons.prems have "fst (saveBalances isA db b n d ts) = Inr ()"
    by (intro saveBalances_success) simp_all
  then obtain db1 where s: "saveBalances isA db b n d ts = (Inr (), db1)"
    by (metis prod.collapse)
  then have "db1 = snd (saveBalances isA db b n d ts)"
    by simp
  then have "config_networks db1 = config_networks db"
    by (simp add: saveBalances_config)
  with Cons.prems
  have "\<forall>b\<in>set bals. find (\<lambda>x. net_name x = wb_network b) (config_networks db1) \<noteq> None
                         \<and> isA (wb_address b) \<and> (\<forall>t\<in>set (wb_tokens b). isA (tb_address t))"
    by simp
  from Cons.IH [OF this] s show ?case
    by simp
qed

lemma fetchAndSave_succeeds:
  assumes limiter: "env_limiters env (net_id net) \<noteq> None"
    and acq: "\<forall>a. env_acquire env a = Removed True"
    and valid: "\<forall>w\<in>set wallets. env_isAddress env (w_address w)
                                 \<and> env_isAddress env (toLowerCase (w_address w))"
    and toks: "\<forall>t\<in>set (net_tokens net). env_isAddress env (tok_address t)"
    and mc: "\<forall>calls m. \<exists>rs. chain_multicall (env_clients env (net_id net)) calls m = Inr rs
                               \<and> length calls \<le> length rs"
    and conf: "find (\<lambda>x. net_name x = net_name net) (config_networks (the_db w)) \<noteq> None"
  shows "\<exists>w'. fetchAndSaveWalletBatches env wallets i net n dateStr ts w = Some (Inr (), w')"
  using conf
proof (induction "length wallets - i" arbitrary: i w rule: less_induct)
  case less
  show ?case
  proof (cases "i < length wallets")
    case False
    then show ?thesis
      by (subst fetchAndSaveWalletBatches.simps) simp
  next
    case True
    let ?batch = "take WALLET_BALANCE_BATCH_SIZE (drop i wallets)"
    let ?request = "getWalletsBalances (env_isAddress env) (env_clients env (net_id net)) ?batch net n"
    let ?calls = "allCalls (map (\<lambda>w. toLowerCase (w_address w)) ?batch) (net_tokens net)"
    have sub: "set ?batch \<subseteq> set wallets"
      by (meson set_drop_subset set_take_subset subset_trans)
    from mc obtain rs where
      rs: "chain_multicall (env_clients env (net_id net)) ?calls n = Inr rs"
      and lr: "length ?calls \<le> length rs"
      by blast
    have v: "\<And>w. w \<in> set ?batch \<Longrightarrow> env_isAddress env (w_address w)"
      using valid sub by blast
    have len: "length ?batch + length (net_tokens net) * length ?batch \<le> length rs"
      using lr by (simp add: length_allCalls)
    let ?bals = "map (decoded_balance ?batch net rs) [0..<length ?batch]"
    have req: "?request (chain_log w) = (Inr ?bals, chain_log w @ [Multicall ?calls n])"
      using v rs len by (rule getWalletsBalances_decoded)
    obtain l where l: "env_limiters env (net_id net) = Some l"
      using limiter by blast
    have a: "env_acquire env (acquired w) = Removed True"
      using acq by simp
    have ne: "fst (?request (chain_log w)) \<noteq> Inl (Error ''Rate limit timeout'')"
      by (simp add: req)
    from execute_acquired [of "env_limiters env" "net_id net" l "env_acquire env" "acquired w"
        ?request "chain_log w" "[]", OF l a ne]
    have ex: "execute (env_limiters env) (net_id net) (env_acquire env) ?request
                (acquired w) (chain_log w) []
              = Some \<lparr>outcome = Inr ?bals, final = chain_log w @ [Multicall ?calls n],
                      acquisitions = acquired w + 1,
                      events = [] @ [Acquire DEFAULT_RETRY_TIMEOUT, Invoke]\<rparr>"
      by (simp add: req)
    have good: "\<forall>b\<in>set ?bals.
                  find (\<lambda>x. net_name x = wb_network b) (config_networks (the_db w)) \<noteq> None
                \<and> env_isAddress env (wb_address b)
                \<and> (\<forall>t\<in>set (wb_tokens b). env_isAddress env (tb_address t))"
    proof
      fix b assume "b \<in> set ?bals"
      then obtain k where k: "k < length ?batch" and b: "b = decoded_balance ?batch net rs k"
        by auto
      from k have "?batch ! k \<in> set wallets"
        using sub nth_mem by blast
      with valid have "env_isAddress env (toLowerCase (w_address (?batch ! k)))"
        by blast
      moreover have "\<forall>t\<in>set (wb_tokens b). env_isAddress env (tb_address t)"
        using toks by (auto simp: b decoded_balance_def)
      ultimately show "find (\<lambda>x. net_name x = wb_network b) (config_networks (the_db w)) \<noteq> None
                \<and> env_isAddress env (wb_address b)
                \<and> (\<forall>t\<in>set (wb_tokens b). env_isAddress env (tb_address t))"
        using less.prems by (simp add: b decoded_balance_def)
    qed
    from save_each_success [OF good]
    obtain db' where sv: "save_each (env_isAddress env) ?bals n dateStr ts (the_db w) = (Inr (), db')"
      by blast
    from good have "\<forall>b\<in>set ?bals.
                  find (\<lambda>x. net_name x = wb_network b) (config_networks (the_db w)) \<noteq> None"
      by blast
    from save_each_Inr [OF sv this] have cf: "config_networks db' = config_networks (the_db w)"
      by simp
    let ?w2 = "w\<lparr>chain_log := chain_log w @ [Multicall ?calls n], acquired := acquired w + 1,
                  limiter_events := limiter_events w @ [Acquire DEFAULT_RETRY_TIMEOUT, Invoke],
                  the_db := db'\<rparr>"
    have unroll: "fetchAndSaveWalletBatches env wallets i net n dateStr ts w
                  = fetchAndSaveWalletBatches env wallets (i + WALLET_BALANCE_BATCH_SIZE) net n
                      dateStr ts ?w2"
      using True ex sv by (subst fetchAndSaveWalletBatches.simps) (simp add: Let_def)
    have smaller: "length wallets - (i + WALLET_BALANCE_BATCH_SIZE) < length wallets - i"
      using True by (simp add: WALLET_BALANCE_BATCH_SIZE_def)
    have "find (\<lambda>x. net_name x = net_name net) (config_networks (the_db ?w2)) \<noteq> None"
      using less.prems cf by simp
    from less.hyps [OF smaller this] unroll show ?thesis
      by simp
  qed
qed

text \<open>The conditions hold in the example run, which therefore returns without error.\<close>

lemma example_run_conditions:
  "env_limiters example_env (net_id example_network) \<noteq> None"
  "\<forall>a. env_acquire example_env a = Removed True"
  "\<forall>w\<in>set twelve_wallets. env_isAddress example_env (w_address w)
                                 \<and> env_isAddress example_env (toLowerCase (w_address w))"
  "\<forall>t\<in>set (net_tokens example_network). env_isAddress example_env (tok_address t)"
  "\<forall>calls m. \<exists>rs. chain_multicall (env_clients example_env (net_id example_network)) calls m
                      = Inr rs \<and> length calls \<le> length rs"
  "\<forall>calls m. chain_multicall (env_clients example_env (net_id example_network)) calls m
               \<noteq> Inl (Error ''Rate limit timeout'')"
  "find (\<lambda>x. net_name x = net_name example_network) (config_networks (the_db new_tracker))
     \<noteq> None"
  "length twelve_wallets = 12"
  by (simp_all add: example_env_def example_network_def RateLimiterManager_def always_acquired_def
      twelve_wallets_def hex_address_def toLowerCase_def answering_client_def new_tracker_def
      example_db_def)

lemma example_run_returns:
  "\<exists>w'. example_run = Some (Inr (), w')"
  unfolding example_run_def
  using example_run_conditions(1,2,3,4,5,7) by (rule fetchAndSave_succeeds)

text \<open>
  Given a list of 12 wallets, the helper makes three multicalls, for the wallets 0 to 4,
  5 to 9 and 10 to 11, each invoked by the rate limiter after it had removed a token,
  and runs one \<open>saveBalances\<close> transaction per wallet, 12 in all.
\<close>

lemma fetchAndSave_twelve:
  assumes len: "length wallets = 12"
    and limiter: "env_limiters env (net_id net) \<noteq> None"
    and nt: "\<forall>calls m. chain_multicall (env_clients env (net_id net)) calls m
               \<noteq> Inl (Error ''Rate limit timeout'')"
    and conf: "find (\<lambda>x. net_name x = net_name net) (config_networks (the_db w)) \<noteq> None"
    and run: "fetchAndSaveWalletBatches env wallets 0 net n dateStr ts w = Some (Inr (), w')"
  shows "chain_log w' = chain_log w
           @ [batch_multicall net n (take 5 wallets),
              batch_multicall net n (take 5 (drop 5 wallets)),
              batch_multicall net n (drop 10 wallets)]
       \<and> length (take 5 wallets) = 5 \<and> length (take 5 (drop 5 wallets)) = 5
       \<and> length (drop 10 wallets) = 2
       \<and> transactions (the_db w') = transactions (the_db w) + 12
       \<and> (\<exists>ks. length ks = 3
               \<and> acquired w' = acquired w + sum_list ks + 3
               \<and> limiter_events w' = limiter_events w
                   @ concat (map (\<lambda>k. timeout_events k @ [Acquire DEFAULT_RETRY_TIMEOUT, Invoke]) ks))"
proof -
  from fetchAndSave_effects [OF run limiter nt conf] obtain ks where
    log: "chain_log w' = chain_log w @ map (batch_multicall net n) (batches_from 0 wallets)"
    and tx: "transactions (the_db w') = transactions (the_db w) + (length wallets - 0)"
    and ks: "length ks = length (batches_from 0 wallets)"
      "acquired w' = acquired w + sum_list ks + length ks"
      "limiter_events w' = limiter_events w
         @ concat (map (\<lambda>k. timeout_events k @ [Acquire DEFAULT_RETRY_TIMEOUT, Invoke]) ks)"
    by blast
  from ks batches_from_twelve [OF len]
  have "\<exists>ks. length ks = 3
               \<and> acquired w' = acquired w + sum_list ks + 3
               \<and> limiter_events w' = limiter_events w
                   @ concat (map (\<lambda>k. timeout_events k @ [Acquire DEFAULT_RETRY_TIMEOUT, Invoke]) ks)"
    by (intro exI [of _ ks]) simp
  with log tx batches_from_twelve [OF len] len show ?thesis
    by simp
qed

lemma example_run_effects:
  "succeeded example_run \<and> length (chain_log_of example_run) = 3
   \<and> transactions_of example_run = 12"
proof -
  from example_run_returns obtain w' where r: "example_run = Some (Inr (), w')"
    by blast
  from fetchAndSave_effects [OF r [unfolded example_run_def] example_run_conditions(1,6,7)]
    batches_from_twelve [OF example_run_conditions(8)]
  have "length (chain_log w') = 3" and "transactions (the_db w') = 12"
    by (simp_all add: new_tracker_def example_db_def example_run_conditions(8))
  then show ?thesis
    by (simp add: r succeeded_def chain_log_of_def transactions_of_def)
qed

section \<open>Fetches of missing balances\<close>







































end
